theory Spec2Isabelle
  imports Complex_Main "HOL-Library.AList"
begin

section \<open>Account identifiers and base URLs\<close>

text \<open>
  \<^verbatim>\<open>accountId.toLowerCase().replace(/_/g, '-')\<close> of \<^verbatim>\<open>utils/validation.ts\<close>
  (\<^verbatim>\<open>normalizeAccountId\<close>) and of the three client constructors.

  \<^verbatim>\<open>String.prototype.toLowerCase\<close> belongs to the JavaScript runtime, with the Unicode case
  tables it consults: it is a parameter \<open>toLowerCase\<close> of every function that calls it. A
  string is the list of the bytes of its text; a character outside ASCII takes several of
  them, none below 128, so \<^verbatim>\<open>replace(/_/g, '-')\<close> acts on the bytes one by one.
\<close>

text \<open>\<^verbatim>\<open>s.replace(/_/g, '-')\<close>: every underscore becomes a hyphen.\<close>

definition replaceUnderscores :: "string \<Rightarrow> string" where
  "replaceUnderscores s = map (\<lambda>c. if c = CHR ''_'' then CHR ''-'' else c) s"

definition normalizeAccountId :: "(string \<Rightarrow> string) \<Rightarrow> string \<Rightarrow> string" where
  "normalizeAccountId toLowerCase accountId = replaceUnderscores (toLowerCase accountId)"

definition buildSuiteTalkUrl :: "(string \<Rightarrow> string) \<Rightarrow> string \<Rightarrow> string" where
  "buildSuiteTalkUrl toLowerCase accountId =
     ''https://'' @ normalizeAccountId toLowerCase accountId @ ''.suitetalk.api.netsuite.com''"

definition buildRestletUrl :: "(string \<Rightarrow> string) \<Rightarrow> string \<Rightarrow> string" where
  "buildRestletUrl toLowerCase accountId =
     ''https://'' @ normalizeAccountId toLowerCase accountId @ ''.restlets.api.netsuite.com''"

text \<open>
  The constructors of \<^verbatim>\<open>RecordClient\<close> and \<^verbatim>\<open>RestletClient\<close> do not call
  \<^verbatim>\<open>normalizeAccountId\<close>: each one repeats the expression inline and stores the result in
  \<^verbatim>\<open>this.baseUrl\<close>. (The constructor of \<^verbatim>\<open>SuiteQLClient\<close> does the same; it is
  \<open>SuiteQLClient_new\<close> below.)
\<close>

definition RecordClient_baseUrl :: "(string \<Rightarrow> string) \<Rightarrow> string \<Rightarrow> string" where
  "RecordClient_baseUrl toLowerCase accountId =
     (let normalizedId = replaceUnderscores (toLowerCase accountId)
      in ''https://'' @ normalizedId
           @ ''.suitetalk.api.netsuite.com/services/rest/record/v1'')"

definition RestletClient_baseUrl :: "(string \<Rightarrow> string) \<Rightarrow> string \<Rightarrow> string" where
  "RestletClient_baseUrl toLowerCase accountId =
     (let normalizedId = replaceUnderscores (toLowerCase accountId)
      in ''https://'' @ normalizedId
           @ ''.restlets.api.netsuite.com/app/site/hosting/restlet.nl'')"

text \<open>
  What the results below use of \<^verbatim>\<open>toLowerCase\<close>: a lowercased string is left alone by a
  second call; a string that \<^verbatim>\<open>toLowerCase\<close> leaves alone is still left alone once its
  underscores are hyphens (neither character has a case); and on a string of ASCII
  characters it is the mapping of \<^verbatim>\<open>A\<close>..\<^verbatim>\<open>Z\<close> to \<^verbatim>\<open>a\<close>..\<^verbatim>\<open>z\<close>.
\<close>

definition toLowerCaseChar :: "char \<Rightarrow> char" where
  "toLowerCaseChar c =
     (let n = (of_char c :: nat) in if 65 \<le> n \<and> n \<le> 90 then char_of (n + 32) else c)"

definition ascii :: "string \<Rightarrow> bool" where
  "ascii s = list_all (\<lambda>c. (of_char c :: nat) < 128) s"

definition lowercases :: "(string \<Rightarrow> string) \<Rightarrow> bool" where
  "lowercases toLowerCase \<longleftrightarrow>
     (\<forall>s. toLowerCase (toLowerCase s) = toLowerCase s)
     \<and> (\<forall>s. toLowerCase s = s \<longrightarrow> toLowerCase (replaceUnderscores s) = replaceUnderscores s)
     \<and> (\<forall>s. ascii s \<longrightarrow> toLowerCase s = map toLowerCaseChar s)"


section \<open>JavaScript values\<close>

text \<open>
  Request and response bodies are untyped (\<^verbatim>\<open>unknown\<close>) in the source. Numbers are the
  integers and \<^verbatim>\<open>NaN\<close>; objects are lists of entries in insertion order.
\<close>

datatype jsval =
    JUndefined
  | JNull
  | JBool bool
  | JNum int
  | JNaN
  | JStr string
  | JArr "jsval list"
  | JObj "(string \<times> jsval) list"

text \<open>Truthiness, as \<^verbatim>\<open>&&\<close>, \<^verbatim>\<open>||\<close> and \<^verbatim>\<open>?:\<close> test it.\<close>

fun truthy :: "jsval \<Rightarrow> bool" where
  "truthy JUndefined = False"
| "truthy JNull = False"
| "truthy (JBool b) = b"
| "truthy (JNum n) = (n \<noteq> 0)"
| "truthy JNaN = False"
| "truthy (JStr s) = (s \<noteq> [])"
| "truthy (JArr xs) = True"
| "truthy (JObj kvs) = True"

text \<open>\<^verbatim>\<open>a ?? b\<close>: the right operand only when the left one is \<^verbatim>\<open>null\<close> or \<^verbatim>\<open>undefined\<close>.\<close>

fun nullish :: "jsval \<Rightarrow> bool" where
  "nullish JUndefined = True"
| "nullish JNull = True"
| "nullish v = False"

definition coalesce :: "jsval \<Rightarrow> jsval \<Rightarrow> jsval" where
  "coalesce a b = (if nullish a then b else a)"

text \<open>Property read \<^verbatim>\<open>v.k\<close> on a value that is not nullish.\<close>

fun get_prop :: "jsval \<Rightarrow> string \<Rightarrow> jsval" where
  "get_prop (JObj kvs) k = (case map_of kvs k of Some v \<Rightarrow> v | None \<Rightarrow> JUndefined)"
| "get_prop v k = JUndefined"

text \<open>Decimal rendering of a number inside a template string.\<close>

function show_nat :: "nat \<Rightarrow> string" where
  "show_nat n =
     (if n < 10 then [''0123456789'' ! n]
      else show_nat (n div 10) @ [''0123456789'' ! (n mod 10)])"
  by pat_completeness auto
termination
  by (relation "measure id") auto

declare show_nat.simps [simp del]

definition show_int :: "int \<Rightarrow> string" where
  "show_int i = (if i < 0 then CHR ''-'' # show_nat (nat (- i)) else show_nat (nat i))"

text \<open>
  \<^verbatim>\<open>String(v)\<close>, the conversion that the constructor of \<^verbatim>\<open>Error\<close> applies to its message:
  an array is its elements joined by commas, \<^verbatim>\<open>null\<close> and \<^verbatim>\<open>undefined\<close> among them
  rendered as nothing, and an object of a parsed body is \<^verbatim>\<open>[object Object]\<close>.
\<close>

fun join_commas :: "string list \<Rightarrow> string" where
  "join_commas [] = []"
| "join_commas [x] = x"
| "join_commas (x # y # ys) = x @ '','' @ join_commas (y # ys)"

fun js_String :: "jsval \<Rightarrow> string" where
  "js_String JUndefined = ''undefined''"
| "js_String JNull = ''null''"
| "js_String (JBool b) = (if b then ''true'' else ''false'')"
| "js_String (JNum n) = show_int n"
| "js_String JNaN = ''NaN''"
| "js_String (JStr s) = s"
| "js_String (JArr xs) = join_commas (map (\<lambda>x. if nullish x then [] else js_String x) xs)"
| "js_String (JObj kvs) = ''[object Object]''"


section \<open>HTTP types and the structured error\<close>

datatype HttpMethod = GET | POST | PUT | PATCH | DELETE

text \<open>
  \<^verbatim>\<open>Record<string, string>\<close>: entries in insertion order. The spread
  \<^verbatim>\<open>{ ...a, ...b }\<close> keeps the position of a key of \<^verbatim>\<open>a\<close> that \<^verbatim>\<open>b\<close> overrides and appends
  the keys only \<^verbatim>\<open>b\<close> has.
\<close>

type_synonym headers = "(string \<times> string) list"

definition spread :: "headers \<Rightarrow> headers \<Rightarrow> headers" where
  "spread a b = foldl (\<lambda>acc (k, v). AList.update k v acc) a b"

text \<open>
  \<^verbatim>\<open>class NetSuiteError\<close> of \<^verbatim>\<open>types/errors.ts\<close>. The constructor hands the message to
  \<^verbatim>\<open>Error\<close>, which stores its string conversion; the code and the details are stored as
  received, and \<^verbatim>\<open>executeRequest\<close> takes them from an untyped body.
\<close>

record NetSuiteError =
  message :: string
  status :: int
  code :: jsval
  details :: jsval
  requestUrl :: "string option"
  requestMethod :: "HttpMethod option"

definition NetSuiteError_new ::
  "jsval \<Rightarrow> int \<Rightarrow> jsval \<Rightarrow> jsval \<Rightarrow> string option \<Rightarrow> HttpMethod option \<Rightarrow> NetSuiteError"
where
  "NetSuiteError_new msg st cd dt u m =
     \<lparr> message = js_String msg, status = st, code = cd, details = dt,
       requestUrl = u, requestMethod = m \<rparr>"

definition isRetryable :: "NetSuiteError \<Rightarrow> bool" where
  "isRetryable e \<longleftrightarrow>
     status e \<ge> 500 \<or> code e = JStr ''TIMEOUT'' \<or> code e = JStr ''NETWORK_ERROR''"

definition isAuthError :: "NetSuiteError \<Rightarrow> bool" where
  "isAuthError e \<longleftrightarrow> status e = 401 \<or> status e = 403"

text \<open>
  What a rejected promise carries: a \<^verbatim>\<open>NetSuiteError\<close>, or any other value (an
  \<^verbatim>\<open>Error\<close> with its message).
\<close>

datatype thrown = NSError NetSuiteError | OtherError string

text \<open>
  An asynchronous operation on the state \<open>'s\<close>: it rejects (\<open>Inl\<close>), resolves (\<open>Inr\<close>),
  or never settles (\<open>None\<close>).
\<close>

type_synonym ('a, 's) async = "'s \<Rightarrow> ((thrown + 'a) \<times> 's) option"


section \<open>The retry engine\<close>

record 's RetryConfig =
  maxRetries :: int
  initialDelay :: real
  maxDelay :: real
  backoffFactor :: real
  shouldRetry :: "thrown \<Rightarrow> int \<Rightarrow> bool"
  onRetry :: "(thrown \<Rightarrow> int \<Rightarrow> 's \<Rightarrow> 's) option"

text \<open>\<^verbatim>\<open>Partial<RetryConfig>\<close>: every field may be absent.\<close>

record 's PartialRetryConfig =
  p_maxRetries :: "int option"
  p_initialDelay :: "real option"
  p_maxDelay :: "real option"
  p_backoffFactor :: "real option"
  p_shouldRetry :: "(thrown \<Rightarrow> int \<Rightarrow> bool) option"
  p_onRetry :: "(thrown \<Rightarrow> int \<Rightarrow> 's \<Rightarrow> 's) option"

definition DEFAULT_RETRY_CONFIG :: "'s RetryConfig" where
  "DEFAULT_RETRY_CONFIG =
     \<lparr> maxRetries = 3, initialDelay = 1000, maxDelay = 30000, backoffFactor = 2,
       shouldRetry = (\<lambda>error attempt.
          case error of NSError e \<Rightarrow> isRetryable e | OtherError m \<Rightarrow> True),
       onRetry = None \<rparr>"

text \<open>\<^verbatim>\<open>{ ...DEFAULT_RETRY_CONFIG, ...config }\<close>.\<close>

definition merge_config :: "'s RetryConfig \<Rightarrow> 's PartialRetryConfig \<Rightarrow> 's RetryConfig" where
  "merge_config d c =
     \<lparr> maxRetries = (case p_maxRetries c of None \<Rightarrow> maxRetries d | Some v \<Rightarrow> v),
       initialDelay = (case p_initialDelay c of None \<Rightarrow> initialDelay d | Some v \<Rightarrow> v),
       maxDelay = (case p_maxDelay c of None \<Rightarrow> maxDelay d | Some v \<Rightarrow> v),
       backoffFactor = (case p_backoffFactor c of None \<Rightarrow> backoffFactor d | Some v \<Rightarrow> v),
       shouldRetry = (case p_shouldRetry c of None \<Rightarrow> shouldRetry d | Some v \<Rightarrow> v),
       onRetry = (case p_onRetry c of None \<Rightarrow> onRetry d | Some v \<Rightarrow> Some v) \<rparr>"

text \<open>
  The two platform functions \<^verbatim>\<open>withRetry\<close> calls: \<^verbatim>\<open>Math.random()\<close>, which reads the
  generator, and \<^verbatim>\<open>setTimeout(resolve, ms)\<close> awaited, which lets the time pass.
\<close>

record 's runtime =
  Math_random :: "'s \<Rightarrow> real \<times> 's"
  setTimeout :: "real \<Rightarrow> 's \<Rightarrow> 's"

text \<open>
  The \<^verbatim>\<open>for\<close> loop of \<^verbatim>\<open>withRetry\<close>, from the value \<open>attempt\<close> of its counter.
  \<^verbatim>\<open>maxRetries\<close> is an integer and the other numbers are reals. The
  callbacks \<^verbatim>\<open>shouldRetry\<close> and \<^verbatim>\<open>onRetry\<close> return normally. The statement after the loop
  throws \<^verbatim>\<open>Error('Retry loop exited unexpectedly')\<close>.
\<close>

function retry_loop ::
  "('s, 'z) runtime_scheme \<Rightarrow> ('a, 's) async \<Rightarrow> 's RetryConfig \<Rightarrow> int \<Rightarrow> ('a, 's) async"
where
  "retry_loop rt fn opts attempt s =
     (if attempt \<le> maxRetries opts then
        (case fn s of
           None \<Rightarrow> None
         | Some (Inr v, s1) \<Rightarrow> Some (Inr v, s1)
         | Some (Inl error, s1) \<Rightarrow>
             (let isLastAttempt = (attempt = maxRetries opts) in
              if isLastAttempt \<or> \<not> shouldRetry opts error attempt then Some (Inl error, s1)
              else
                let s2 = (case onRetry opts of None \<Rightarrow> s1 | Some f \<Rightarrow> f error (attempt + 1) s1);
                    delay = min (initialDelay opts * backoffFactor opts ^ nat attempt)
                                (maxDelay opts);
                    (r, s3) = Math_random rt s2;
                    jitter = delay * 0.25 * (r * 2 - 1);
                    s4 = setTimeout rt (delay + jitter) s3
                in retry_loop rt fn opts (attempt + 1) s4))
      else Some (Inl (OtherError ''Retry loop exited unexpectedly''), s))"
  by pat_completeness auto
termination
  by (relation "measure (\<lambda>(rt, fn, opts, attempt, s). nat (maxRetries opts + 1 - attempt))")
    auto

declare retry_loop.simps [simp del]

definition withRetry ::
  "('s, 'z) runtime_scheme \<Rightarrow> ('a, 's) async \<Rightarrow> 's PartialRetryConfig \<Rightarrow> ('a, 's) async"
where
  "withRetry rt fn config s =
     (let opts = merge_config DEFAULT_RETRY_CONFIG config in retry_loop rt fn opts 0 s)"


section \<open>The middleware chain\<close>

record RequestContext =
  url :: string
  http_method :: HttpMethod
  headers :: headers
  body :: jsval
  metadata :: "(string \<times> jsval) list"

record ResponseContext =
  r_status :: int
  r_headers :: headers
  r_body :: jsval
  r_duration :: int

text \<open>
  What a running chain shares: the closure variable \<^verbatim>\<open>index\<close>, the one mutable
  \<^verbatim>\<open>context\<close> object every middleware and the final handler see, and the rest of the
  world. A middleware gets \<^verbatim>\<open>next\<close> and reads the context from the state.
\<close>

record 'w chain_state =
  index :: nat
  shared_context :: RequestContext
  world :: 'w

type_synonym 'w handler = "(ResponseContext, 'w chain_state) async"

type_synonym 'w Middleware = "'w handler \<Rightarrow> 'w handler"

text \<open>
  The inner function \<^verbatim>\<open>next\<close>. A middleware may call it again from inside a call of it,
  so the recursion is bounded by the nesting depth that is left; a chain that runs out
  of depth does not settle.
\<close>

fun chain_next :: "nat \<Rightarrow> 'w Middleware list \<Rightarrow> 'w handler \<Rightarrow> 'w handler" where
  "chain_next 0 middlewares finalHandler s = None"
| "chain_next (Suc depth) middlewares finalHandler s =
     (if index s \<ge> length middlewares then finalHandler s
      else
        let middleware = middlewares ! index s;
            s' = s\<lparr>index := index s + 1\<rparr>
        in middleware (chain_next depth middlewares finalHandler) s')"

text \<open>
  \<^verbatim>\<open>index\<close> only grows, so a call of \<^verbatim>\<open>next\<close> nested \<open>d\<close> deep sees \<^verbatim>\<open>index\<close> at least
  \<open>d\<close>: the depth \<open>length middlewares + 1\<close> is never used up by middlewares that leave
  \<^verbatim>\<open>index\<close> alone, as those of the source must.
\<close>

definition executeMiddlewareChain ::
  "'w Middleware list \<Rightarrow> RequestContext \<Rightarrow> 'w handler \<Rightarrow> 'w
     \<Rightarrow> ((thrown + ResponseContext) \<times> 'w chain_state) option"
where
  "executeMiddlewareChain middlewares ctx finalHandler w =
     chain_next (Suc (length middlewares)) middlewares finalHandler
       \<lparr>index = 0, shared_context = ctx, world = w\<rparr>"

text \<open>
  The middleware of the repository's tests and README: work before \<^verbatim>\<open>next()\<close>, one call
  of \<^verbatim>\<open>next()\<close>, work on its response after. \<open>enter\<close> may change the context and the
  world; \<open>exit\<close> gets what \<^verbatim>\<open>next()\<close> gave (a response or a rejection) and decides what
  the middleware gives.
\<close>

definition around ::
  "(RequestContext \<Rightarrow> 'w \<Rightarrow> RequestContext \<times> 'w)
   \<Rightarrow> ((thrown + ResponseContext) \<Rightarrow> RequestContext \<Rightarrow> 'w
        \<Rightarrow> (thrown + ResponseContext) \<times> RequestContext \<times> 'w)
   \<Rightarrow> 'w Middleware"
where
  "around enter exit nxt s =
     (let (c1, w1) = enter (shared_context s) (world s) in
      case nxt (s\<lparr>shared_context := c1, world := w1\<rparr>) of
        None \<Rightarrow> None
      | Some (res, s2) \<Rightarrow>
          (let (res', c3, w3) = exit res (shared_context s2) (world s2)
           in Some (res', s2\<lparr>shared_context := c3, world := w3\<rparr>)))"


section \<open>The transport\<close>

record AxiosRequestConfig =
  ax_url :: string
  ax_method :: HttpMethod
  ax_headers :: headers
  ax_data :: jsval
  ax_timeout :: int

record AxiosResponse =
  ar_status :: int
  ar_data :: jsval
  ar_headers :: "(string \<times> jsval) list"

record AxiosError =
  ae_code :: "string option"
  ae_message :: string

text \<open>
  What the transport calls outside this repository: the signer that
  \<^verbatim>\<open>createOAuthSigner\<close> returns (library \<^verbatim>\<open>oauth-1.0a\<close>: it draws a nonce and reads the
  time), \<^verbatim>\<open>axiosInstance.request\<close>, which resolves with a response of any status
  (\<^verbatim>\<open>validateStatus: () => true\<close>) or rejects, and \<^verbatim>\<open>performance.now()\<close>.
\<close>

record 'w platform = "'w runtime" +
  sign :: "string \<Rightarrow> HttpMethod \<Rightarrow> 'w \<Rightarrow> headers \<times> 'w"
  axios_request :: "AxiosRequestConfig \<Rightarrow> 'w \<Rightarrow> (AxiosError + AxiosResponse) \<times> 'w"
  performance_now :: "'w \<Rightarrow> real \<times> 'w"

text \<open>What the transport hands to the logger; the message strings are not rendered.\<close>

datatype log_record =
    LogDebug HttpMethod string
  | LogInfo HttpMethod string int int
  | LogWarn int int string HttpMethod thrown

type_synonym 'w Logger = "log_record \<Rightarrow> 'w \<Rightarrow> 'w"

definition log_opt :: "'w Logger option \<Rightarrow> log_record \<Rightarrow> 'w \<Rightarrow> 'w" where
  "log_opt l r w = (case l of None \<Rightarrow> w | Some f \<Rightarrow> f r w)"

record 'w NetSuiteConfig =
  n_timeout :: "int option"
  n_maxRetries :: "int option"
  n_retryDelay :: "real option"
  n_defaultHeaders :: "headers option"
  n_logger :: "'w Logger option"

record 'w ResolvedConfig =
  timeout :: int
  c_maxRetries :: int
  retryDelay :: real
  defaultHeaders :: headers
  logger :: "'w Logger option"

record 'w HttpTransport =
  config :: "'w ResolvedConfig"
  middlewares :: "'w Middleware list"

definition HttpTransport_new :: "'w NetSuiteConfig \<Rightarrow> 'w HttpTransport" where
  "HttpTransport_new cfg =
     \<lparr> config =
         \<lparr> timeout = (case n_timeout cfg of None \<Rightarrow> 30000 | Some v \<Rightarrow> v),
           c_maxRetries = (case n_maxRetries cfg of None \<Rightarrow> 3 | Some v \<Rightarrow> v),
           retryDelay = (case n_retryDelay cfg of None \<Rightarrow> 1000 | Some v \<Rightarrow> v),
           defaultHeaders = (case n_defaultHeaders cfg of None \<Rightarrow> [] | Some v \<Rightarrow> v),
           logger = n_logger cfg \<rparr>,
       middlewares = [] \<rparr>"

definition use :: "'w Middleware \<Rightarrow> 'w HttpTransport \<Rightarrow> 'w HttpTransport" where
  "use middleware t = t\<lparr>middlewares := middlewares t @ [middleware]\<rparr>"

record RequestOptions =
  o_method :: "HttpMethod option"
  o_headers :: "headers option"
  o_body :: jsval
  o_timeout :: "int option"
  o_maxRetries :: "int option"

record 'd NetSuiteResponse =
  data :: 'd
  res_status :: int
  res_headers :: headers
  res_duration :: int

text \<open>\<^verbatim>\<open>extractHeaders\<close> of \<^verbatim>\<open>types/http.ts\<close>: the entries whose value is a string.\<close>

definition extractHeaders :: "AxiosResponse \<Rightarrow> headers" where
  "extractHeaders response =
     foldl (\<lambda>hs (key, v). case v of JStr x \<Rightarrow> AList.update key x hs | _ \<Rightarrow> hs)
       [] (ar_headers response)"

text \<open>The object literal that \<^verbatim>\<open>executeRequest\<close> passes to \<^verbatim>\<open>axiosInstance.request\<close>.\<close>

definition axios_config :: "RequestContext \<Rightarrow> int \<Rightarrow> AxiosRequestConfig" where
  "axios_config ctx tmo =
     \<lparr> ax_url = url ctx,
       ax_method = http_method ctx,
       ax_headers = headers ctx,
       ax_data = (if truthy (body ctx) \<and> http_method ctx \<in> set [POST, PUT, PATCH]
                  then body ctx else JUndefined),
       ax_timeout = tmo \<rparr>"

definition executeRequest ::
  "'w platform \<Rightarrow> 'w ResolvedConfig \<Rightarrow> RequestContext \<Rightarrow> int \<Rightarrow> 'w
     \<Rightarrow> (thrown + ResponseContext) \<times> 'w"
where
  "executeRequest pf cfg ctx tmo w =
     (let (startTime, w1) = performance_now pf w;
          w2 = log_opt (logger cfg) (LogDebug (http_method ctx) (url ctx)) w1
      in case axios_request pf (axios_config ctx tmo) w2 of
           (Inr response, w3) \<Rightarrow>
             (let (t, w4) = performance_now pf w3;
                  duration = round (t - startTime);
                  w5 = log_opt (logger cfg)
                         (LogInfo (http_method ctx) (url ctx) (ar_status response) duration) w4
              in if ar_status response \<ge> 400 then
                   (let errorBody = coalesce (ar_data response) (JObj []);
                        msg = coalesce (get_prop errorBody ''detail'')
                                (coalesce (get_prop errorBody ''title'')
                                  (coalesce (get_prop errorBody ''message'')
                                    (JStr (''HTTP '' @ show_int (ar_status response)))));
                        cd = coalesce (get_prop errorBody ''o:errorCode'')
                               (coalesce (get_prop errorBody ''code'')
                                 (JStr (''HTTP_'' @ show_int (ar_status response))))
                    in (Inl (NSError (NetSuiteError_new msg (ar_status response) cd errorBody
                                        (Some (url ctx)) (Some (http_method ctx)))), w5))
                 else
                   (Inr \<lparr> r_status = ar_status response,
                          r_headers = extractHeaders response,
                          r_body = (if ar_status response = 204 then JUndefined
                                    else ar_data response),
                          r_duration = duration \<rparr>, w5))
         | (Inl axiosError, w3) \<Rightarrow>
             (let (t, w4) = performance_now pf w3 in
              if ae_code axiosError = Some ''ECONNABORTED''
                 \<or> ae_code axiosError = Some ''ERR_CANCELED''
              then (Inl (NSError (NetSuiteError_new
                                    (JStr (''Request timed out after '' @ show_int tmo @ ''ms''))
                                    504 (JStr ''TIMEOUT'') JUndefined
                                    (Some (url ctx)) (Some (http_method ctx)))), w4)
              else (Inl (NSError (NetSuiteError_new
                                    (JStr (if ae_message axiosError \<noteq> []
                                           then ae_message axiosError else ''Network error''))
                                    0 (JStr ''NETWORK_ERROR'') JUndefined
                                    (Some (url ctx)) (Some (http_method ctx)))), w4)))"

text \<open>
  The final handler \<^verbatim>\<open>() => this.executeRequest(context, timeout)\<close>: it reads the shared
  context when the chain reaches it.
\<close>

definition finalHandler :: "'w platform \<Rightarrow> 'w ResolvedConfig \<Rightarrow> int \<Rightarrow> 'w handler" where
  "finalHandler pf cfg tmo s =
     (let (res, w') = executeRequest pf cfg (shared_context s) tmo (world s)
      in Some (res, s\<lparr>world := w'\<rparr>))"

text \<open>The arrow function that \<^verbatim>\<open>request\<close> passes to \<^verbatim>\<open>withRetry\<close>: one attempt.\<close>

definition attempt_fn ::
  "'w platform \<Rightarrow> 'w HttpTransport \<Rightarrow> string \<Rightarrow> RequestOptions \<Rightarrow> HttpMethod \<Rightarrow> int
     \<Rightarrow> (jsval NetSuiteResponse, 'w) async"
where
  "attempt_fn pf t u options m tmo w =
     (let (authHeaders, w1) = sign pf u m w;
          hs = spread (spread (spread [(''Content-Type'', ''application/json'')]
                                 (defaultHeaders (config t)))
                         authHeaders)
                 (case o_headers options of None \<Rightarrow> [] | Some h \<Rightarrow> h);
          ctx = \<lparr> url = u, http_method = m, headers = hs, body = o_body options, metadata = [] \<rparr>
      in case executeMiddlewareChain (middlewares t) ctx (finalHandler pf (config t) tmo) w1 of
           None \<Rightarrow> None
         | Some (Inl e, s) \<Rightarrow> Some (Inl e, world s)
         | Some (Inr response, s) \<Rightarrow>
             Some (Inr \<lparr> data = r_body response, res_status = r_status response,
                         res_headers = r_headers response,
                         res_duration = r_duration response \<rparr>, world s))"

definition request ::
  "'w platform \<Rightarrow> 'w HttpTransport \<Rightarrow> string \<Rightarrow> RequestOptions
     \<Rightarrow> (jsval NetSuiteResponse, 'w) async"
where
  "request pf t u options w =
     (let m = (case o_method options of None \<Rightarrow> GET | Some v \<Rightarrow> v);
          tmo = (case o_timeout options of None \<Rightarrow> timeout (config t) | Some v \<Rightarrow> v);
          n = (case o_maxRetries options of None \<Rightarrow> c_maxRetries (config t) | Some v \<Rightarrow> v)
      in withRetry pf (attempt_fn pf t u options m tmo)
           \<lparr> p_maxRetries = Some n,
             p_initialDelay = Some (retryDelay (config t)),
             p_maxDelay = None,
             p_backoffFactor = None,
             p_shouldRetry = Some (\<lambda>error attempt.
                case error of NSError e \<Rightarrow> isRetryable e | OtherError x \<Rightarrow> True),
             p_onRetry = Some (\<lambda>error attempt.
                log_opt (logger (config t)) (LogWarn attempt n u m error)) \<rparr>
           w)"


section \<open>The SuiteQL client\<close>

text \<open>
  The numbers \<^verbatim>\<open>query\<close> computes with: integers, \<^verbatim>\<open>Infinity\<close> (the default of
  \<^verbatim>\<open>maxRows\<close>) and \<^verbatim>\<open>NaN\<close>. \<^verbatim>\<open>Math.min\<close> and the subtraction give \<^verbatim>\<open>NaN\<close> as soon as
  an operand is \<^verbatim>\<open>NaN\<close>, every comparison with \<^verbatim>\<open>NaN\<close> is false, and a template string
  renders it as \<^verbatim>\<open>NaN\<close>.
\<close>

datatype jsnum = Fin int | Infinity | NaN

fun js_minus :: "jsnum \<Rightarrow> int \<Rightarrow> jsnum" where
  "js_minus (Fin a) n = Fin (a - n)"
| "js_minus Infinity n = Infinity"
| "js_minus NaN n = NaN"

fun js_min :: "jsnum \<Rightarrow> jsnum \<Rightarrow> jsnum" where
  "js_min NaN b = NaN"
| "js_min a NaN = NaN"
| "js_min (Fin a) (Fin b) = Fin (min a b)"
| "js_min (Fin a) Infinity = Fin a"
| "js_min Infinity b = b"

fun js_le :: "jsnum \<Rightarrow> jsnum \<Rightarrow> bool" where
  "js_le NaN b = False"
| "js_le a NaN = False"
| "js_le (Fin a) (Fin b) = (a \<le> b)"
| "js_le (Fin a) Infinity = True"
| "js_le Infinity (Fin b) = False"
| "js_le Infinity Infinity = True"

fun show_jsnum :: "jsnum \<Rightarrow> string" where
  "show_jsnum (Fin a) = show_int a"
| "show_jsnum Infinity = ''Infinity''"
| "show_jsnum NaN = ''NaN''"

record 'a SuiteQLRawResponse =
  items :: "'a list"
  totalResults :: int
  hasMore :: bool
  offset :: int
  count :: int

record SuiteQLOptions =
  pageSize :: "jsnum option"
  startOffset :: "int option"
  maxRows :: "jsnum option"
  q_timeout :: "int option"

record 'a SuiteQLResult =
  q_items :: "'a list"
  q_totalResults :: int
  q_pagesFetched :: int
  q_hasMore :: bool
  q_duration :: int

text \<open>
  The client holds the transport; \<^verbatim>\<open>query\<close> uses its \<^verbatim>\<open>request\<close> method at the type
  \<^verbatim>\<open>SuiteQLRawResponse<T>\<close> (the tests pass a mock with that method only).
\<close>

record ('a, 'w) SuiteQLClient =
  transport_request ::
    "string \<Rightarrow> RequestOptions \<Rightarrow> ('a SuiteQLRawResponse NetSuiteResponse, 'w) async"
  baseUrl :: string

text \<open>
  The constructor: \<^verbatim>\<open>normalizedId = accountId.toLowerCase().replace(/_/g, '-')\<close>, written
  inline, and the base URL built from it.
\<close>

definition SuiteQLClient_new ::
  "(string \<Rightarrow> string)
     \<Rightarrow> (string \<Rightarrow> RequestOptions \<Rightarrow> ('a SuiteQLRawResponse NetSuiteResponse, 'w) async)
     \<Rightarrow> string \<Rightarrow> ('a, 'w) SuiteQLClient"
where
  "SuiteQLClient_new toLowerCase tr accountId =
     (let normalizedId = replaceUnderscores (toLowerCase accountId)
      in \<lparr> transport_request = tr,
           baseUrl = ''https://'' @ normalizedId
                       @ ''.suitetalk.api.netsuite.com/services/rest/query/v1/suiteql'' \<rparr>)"

text \<open>The variables of \<^verbatim>\<open>query\<close> that its loop updates.\<close>

record 'a query_vars =
  allItems :: "'a list"
  currentOffset :: int
  v_totalResults :: int
  pagesFetched :: int

definition page_url :: "string \<Rightarrow> jsnum \<Rightarrow> int \<Rightarrow> string" where
  "page_url base effectiveLimit off =
     base @ ''?limit='' @ show_jsnum effectiveLimit @ ''&offset='' @ show_int off"

definition page_options :: "string \<Rightarrow> int option \<Rightarrow> RequestOptions" where
  "page_options sql tmo =
     \<lparr> o_method = Some POST, o_headers = Some [(''Prefer'', ''transient'')],
       o_body = JObj [(''q'', JStr sql)], o_timeout = tmo, o_maxRetries = None \<rparr>"

text \<open>
  The \<^verbatim>\<open>while (true)\<close> loop of \<^verbatim>\<open>query\<close>. Nothing bounds it when \<^verbatim>\<open>maxRows\<close> is
  \<^verbatim>\<open>Infinity\<close> and the server keeps answering with rows, so a run that never leaves it
  has the value \<open>None\<close>.
\<close>

partial_function (option) query_loop ::
  "('a, 'w) SuiteQLClient \<Rightarrow> string \<Rightarrow> jsnum \<Rightarrow> jsnum \<Rightarrow> int option
     \<Rightarrow> 'a query_vars \<Rightarrow> 'w \<Rightarrow> ((thrown + 'a query_vars) \<times> 'w) option"
where
  "query_loop client sql pgSize mxRows tmo vars w =
     (let effectiveLimit = js_min pgSize (js_minus mxRows (int (length (allItems vars)))) in
      if js_le effectiveLimit (Fin 0) then Some (Inr vars, w)
      else
        case transport_request client
               (page_url (baseUrl client) effectiveLimit (currentOffset vars))
               (page_options sql tmo) w of
          None \<Rightarrow> None
        | Some (Inl e, w') \<Rightarrow> Some (Inl e, w')
        | Some (Inr response, w') \<Rightarrow>
            (let page = data response;
                 vars1 = vars\<lparr> v_totalResults := totalResults page,
                               pagesFetched := pagesFetched vars + 1,
                               allItems := allItems vars @ items page \<rparr>;
                 has_more = (hasMore page
                         \<or> currentOffset vars + int (length (items page)) < totalResults page)
             in if \<not> has_more \<or> js_le mxRows (Fin (int (length (allItems vars1))))
                   \<or> length (items page) = 0
                then Some (Inr vars1, w')
                else query_loop client sql pgSize mxRows tmo
                       (vars1\<lparr>currentOffset := currentOffset vars + int (length (items page))\<rparr>)
                       w'))"

definition query ::
  "('w \<Rightarrow> real \<times> 'w) \<Rightarrow> ('a, 'w) SuiteQLClient \<Rightarrow> string \<Rightarrow> SuiteQLOptions
     \<Rightarrow> ('a SuiteQLResult, 'w) async"
where
  "query now client sql options w =
     (let pgSize = (case pageSize options of None \<Rightarrow> Fin 1000 | Some v \<Rightarrow> v);
          off = (case startOffset options of None \<Rightarrow> 0 | Some v \<Rightarrow> v);
          mxRows = (case maxRows options of None \<Rightarrow> Infinity | Some v \<Rightarrow> v);
          tmo = q_timeout options;
          (startTime, w1) = now w
      in case query_loop client sql pgSize mxRows tmo
                \<lparr> allItems = [], currentOffset = off, v_totalResults = 0, pagesFetched = 0 \<rparr>
                w1 of
           None \<Rightarrow> None
         | Some (Inl e, w2) \<Rightarrow> Some (Inl e, w2)
         | Some (Inr vars, w2) \<Rightarrow>
             (let (t, w3) = now w2
              in Some (Inr \<lparr> q_items = allItems vars,
                             q_totalResults = v_totalResults vars,
                             q_pagesFetched = pagesFetched vars,
                             q_hasMore = (int (length (allItems vars)) < v_totalResults vars),
                             q_duration = round (t - startTime) \<rparr>, w3)))"


section \<open>Observing a run\<close>

text \<open>
  To state what a run did, the platform functions are wrapped so that each call leaves
  an event in a log kept beside the world; the wrapped functions do to the world what
  the unwrapped ones do.
\<close>

datatype event =
    Called
  | Drew real
  | Slept real
  | Signed string HttpMethod headers
  | Sent AxiosRequestConfig
  | Requested string RequestOptions
  | Answered nat int bool
  | Failed thrown

definition obs_fn :: "('a, 's) async \<Rightarrow> ('a, event list \<times> 's) async" where
  "obs_fn fn = (\<lambda>(tr, s).
     case fn s of None \<Rightarrow> None | Some (r, s') \<Rightarrow> Some (r, (tr @ [Called], s')))"

definition obs_runtime :: "('s, 'z) runtime_scheme \<Rightarrow> (event list \<times> 's) runtime" where
  "obs_runtime rt =
     \<lparr> Math_random = (\<lambda>(tr, s). let (r, s') = Math_random rt s in (r, (tr @ [Drew r], s'))),
       setTimeout = (\<lambda>d (tr, s). (tr @ [Slept d], setTimeout rt d s)) \<rparr>"

definition obs_retry_config ::
  "'s PartialRetryConfig \<Rightarrow> (event list \<times> 's) PartialRetryConfig" where
  "obs_retry_config c =
     \<lparr> p_maxRetries = p_maxRetries c, p_initialDelay = p_initialDelay c,
       p_maxDelay = p_maxDelay c, p_backoffFactor = p_backoffFactor c,
       p_shouldRetry = p_shouldRetry c,
       p_onRetry = map_option (\<lambda>f e k. apsnd (f e k)) (p_onRetry c) \<rparr>"

definition obs_platform :: "'w platform \<Rightarrow> (event list \<times> 'w) platform" where
  "obs_platform pf =
     \<lparr> Math_random = (\<lambda>(tr, s). let (r, s') = Math_random pf s in (r, (tr @ [Drew r], s'))),
       setTimeout = (\<lambda>d (tr, s). (tr @ [Slept d], setTimeout pf d s)),
       sign = (\<lambda>u m (tr, w). let (h, w') = sign pf u m w in (h, (tr @ [Signed u m h], w'))),
       axios_request = (\<lambda>c (tr, w).
          let (r, w') = axios_request pf c w in (r, (tr @ [Sent c], w'))),
       performance_now = (\<lambda>(tr, w). let (t, w') = performance_now pf w in (t, (tr, w'))) \<rparr>"

definition obs_config :: "'w ResolvedConfig \<Rightarrow> (event list \<times> 'w) ResolvedConfig" where
  "obs_config c =
     \<lparr> timeout = timeout c, c_maxRetries = c_maxRetries c, retryDelay = retryDelay c,
       defaultHeaders = defaultHeaders c,
       logger = map_option (\<lambda>l r. apsnd (l r)) (logger c) \<rparr>"

definition obs_clock :: "('w \<Rightarrow> real \<times> 'w) \<Rightarrow> event list \<times> 'w \<Rightarrow> real \<times> event list \<times> 'w" where
  "obs_clock now = (\<lambda>(tr, w). let (t, w') = now w in (t, (tr, w')))"

definition obs_client :: "('a, 'w) SuiteQLClient \<Rightarrow> ('a, event list \<times> 'w) SuiteQLClient" where
  "obs_client c =
     \<lparr> transport_request = (\<lambda>u opts (tr, w).
          case transport_request c u opts w of
            None \<Rightarrow> None
          | Some (Inl e, w') \<Rightarrow> Some (Inl e, (tr @ [Requested u opts, Failed e], w'))
          | Some (Inr response, w') \<Rightarrow>
              Some (Inr response,
                    (tr @ [Requested u opts,
                           Answered (length (items (data response)))
                             (totalResults (data response)) (hasMore (data response))],
                     w'))),
       baseUrl = baseUrl c \<rparr>"


fun is_Called :: "event \<Rightarrow> bool" where
  "is_Called Called = True"
| "is_Called e = False"

fun sleeps :: "event list \<Rightarrow> real list" where
  "sleeps [] = []"
| "sleeps (Slept d # es) = d # sleeps es"
| "sleeps (e # es) = sleeps es"

fun draws :: "event list \<Rightarrow> real list" where
  "draws [] = []"
| "draws (Drew r # es) = r # draws es"
| "draws (e # es) = draws es"

fun wire :: "event list \<Rightarrow> event list" where
  "wire [] = []"
| "wire (Signed u m h # es) = Signed u m h # wire es"
| "wire (Sent c # es) = Sent c # wire es"
| "wire (Slept d # es) = Slept d # wire es"
| "wire (e # es) = wire es"


text \<open>
  The options of an observed run, the delay before the jitter and the duration slept after
  the attempt with index \<open>k\<close> when the generator gave \<open>r\<close>, and the number of invocations
  in a log.
\<close>

definition obs_opts :: "'s RetryConfig \<Rightarrow> (event list \<times> 's) RetryConfig" where
  "obs_opts c =
     \<lparr> maxRetries = maxRetries c, initialDelay = initialDelay c, maxDelay = maxDelay c,
       backoffFactor = backoffFactor c, shouldRetry = shouldRetry c,
       onRetry = map_option (\<lambda>f e k. apsnd (f e k)) (onRetry c) \<rparr>"

definition backoff_delay :: "'s RetryConfig \<Rightarrow> nat \<Rightarrow> real" where
  "backoff_delay opts k = min (initialDelay opts * backoffFactor opts ^ k) (maxDelay opts)"

definition slept_for :: "'s RetryConfig \<Rightarrow> nat \<Rightarrow> real \<Rightarrow> real" where
  "slept_for opts k r = backoff_delay opts k + backoff_delay opts k * 0.25 * (r * 2 - 1)"

definition calls :: "event list \<Rightarrow> nat" where
  "calls t = length (filter is_Called t)"

text \<open>The state after the callback, the draw and the sleep between two attempts.\<close>

definition between :: "('s, 'z) runtime_scheme \<Rightarrow> 's RetryConfig \<Rightarrow> thrown \<Rightarrow> int \<Rightarrow> 's \<Rightarrow> 's" where
  "between rt opts e a s1 =
     (let s2 = (case onRetry opts of None \<Rightarrow> s1 | Some f \<Rightarrow> f e (a + 1) s1);
          (r, s3) = Math_random rt s2
      in setTimeout rt (slept_for opts (nat a) r) s3)"

definition drawn :: "('s, 'z) runtime_scheme \<Rightarrow> 's RetryConfig \<Rightarrow> thrown \<Rightarrow> int \<Rightarrow> 's \<Rightarrow> real" where
  "drawn rt opts e a s1 =
     fst (Math_random rt (case onRetry opts of None \<Rightarrow> s1 | Some f \<Rightarrow> f e (a + 1) s1))"

text \<open>
  For a transport without middleware on an observed platform: the context an attempt
  builds from the headers the signer gave, the response it returns, what the attempt
  does to the unobserved world, the options \<^verbatim>\<open>request\<close> passes to \<^verbatim>\<open>withRetry\<close>, and the
  two events of an attempt.
\<close>

definition attempt_context ::
  "'w ResolvedConfig \<Rightarrow> string \<Rightarrow> HttpMethod \<Rightarrow> RequestOptions \<Rightarrow> headers \<Rightarrow> RequestContext" where
  "attempt_context cfg u m options authHeaders =
     \<lparr> url = u, http_method = m,
       headers = spread (spread (spread [(''Content-Type'', ''application/json'')]
                                   (defaultHeaders cfg))
                           authHeaders)
                   (case o_headers options of None \<Rightarrow> [] | Some h \<Rightarrow> h),
       body = o_body options, metadata = [] \<rparr>"

definition to_response :: "ResponseContext \<Rightarrow> jsval NetSuiteResponse" where
  "to_response response =
     \<lparr> data = r_body response, res_status = r_status response,
       res_headers = r_headers response, res_duration = r_duration response \<rparr>"

definition obs_transport :: "'w ResolvedConfig \<Rightarrow> (event list \<times> 'w) HttpTransport" where
  "obs_transport cfg = \<lparr> config = obs_config cfg, middlewares = [] \<rparr>"

definition request_retry_opts ::
  "'w ResolvedConfig \<Rightarrow> string \<Rightarrow> HttpMethod \<Rightarrow> int \<Rightarrow> 'w RetryConfig" where
  "request_retry_opts cfg u m n =
     merge_config DEFAULT_RETRY_CONFIG
       \<lparr> p_maxRetries = Some n,
         p_initialDelay = Some (retryDelay cfg),
         p_maxDelay = None,
         p_backoffFactor = None,
         p_shouldRetry = Some (\<lambda>error attempt.
            case error of NSError e \<Rightarrow> isRetryable e | OtherError x \<Rightarrow> True),
         p_onRetry = Some (\<lambda>error attempt.
            log_opt (logger cfg) (LogWarn attempt n u m error)) \<rparr>"

definition sent_events ::
  "'w platform \<Rightarrow> 'w ResolvedConfig \<Rightarrow> string \<Rightarrow> RequestOptions \<Rightarrow> HttpMethod \<Rightarrow> int \<Rightarrow> 'w
     \<Rightarrow> event list" where
  "sent_events pf cfg u options m tmo w =
     [Signed u m (fst (sign pf u m w)),
      Sent (axios_config (attempt_context cfg u m options (fst (sign pf u m w))) tmo)]"

text \<open>
  \<open>wire\<close> keeps of a log the sign calls, the network calls and the sleeps of the retry
  engine. A handler that adds nothing but network calls to it, and a middleware that
  keeps this when its \<^verbatim>\<open>next\<close> has it: the middlewares of the source, which hold neither
  the signer nor the HTTP client nor the retry engine's timer.
\<close>

definition sends_only :: "(event list \<times> 'w) handler \<Rightarrow> bool" where
  "sends_only h \<longleftrightarrow>
     (\<forall>s r s'. h s = Some (r, s')
        \<longrightarrow> (\<exists>cs. wire (fst (world s')) = wire (fst (world s)) @ map Sent cs))"

definition sends_through_next :: "(event list \<times> 'w) Middleware \<Rightarrow> bool" where
  "sends_through_next mw \<longleftrightarrow> (\<forall>nxt. sends_only nxt \<longrightarrow> sends_only (mw nxt))"

text \<open>
  One attempt in the log: the sign call with the headers it returned, then the network
  calls made before the attempt settles. A request in the log: the attempts that were
  retried, each followed by the sleep of the retry engine, then the last attempt.
\<close>

definition attempt_block ::
  "string \<Rightarrow> HttpMethod \<Rightarrow> headers \<times> AxiosRequestConfig list \<Rightarrow> event list" where
  "attempt_block u m b = Signed u m (fst b) # map Sent (snd b)"

fun attempts ::
  "string \<Rightarrow> HttpMethod \<Rightarrow> ((headers \<times> AxiosRequestConfig list) \<times> real) list
     \<Rightarrow> headers \<times> AxiosRequestConfig list \<Rightarrow> event list" where
  "attempts u m [] final = attempt_block u m final"
| "attempts u m ((b, d) # retried) final =
     attempt_block u m b @ Slept d # attempts u m retried final"

text \<open>
  What makes the attempt \<open>b\<close> (the headers its sign call returned, and its network calls)
  fresh. Its network calls are those of the middleware chain and the final handler,
  started right after the sign call on the context whose headers are the merge, in this
  order, of \<^verbatim>\<open>Content-Type\<close>, the default headers, the headers of this sign call and the
  per-call headers. Without
  middleware that is one network call, with these headers. Under every name that the
  sign call returned and the per-call headers do not override, the merge holds a value
  of this sign call; under every name of the per-call headers it holds a per-call value.
\<close>

definition fresh_attempt ::
  "'w platform \<Rightarrow> (event list \<times> 'w) HttpTransport \<Rightarrow> 'w ResolvedConfig \<Rightarrow> string
     \<Rightarrow> HttpMethod \<Rightarrow> RequestOptions \<Rightarrow> int \<Rightarrow> headers \<times> AxiosRequestConfig list \<Rightarrow> bool"
where
  "fresh_attempt pf t cfg u m options tmo b \<longleftrightarrow>
     (let percall = (case o_headers options of None \<Rightarrow> [] | Some x \<Rightarrow> x);
          hs = spread (spread (spread [(''Content-Type'', ''application/json'')]
                                 (defaultHeaders cfg))
                         (fst b))
                 percall;
          ctx = \<lparr> url = u, http_method = m, headers = hs, body = o_body options,
                  metadata = [] \<rparr>
      in (\<exists>tr0 w0 r s.
            executeMiddlewareChain (middlewares t) ctx
              (finalHandler (obs_platform pf) (config t) tmo)
              (tr0 @ [Signed u m (fst b)], w0) = Some (r, s)
            \<and> wire (fst (world s)) = wire tr0 @ Signed u m (fst b) # map Sent (snd b))
         \<and> (middlewares t = [] \<longrightarrow> snd b = [axios_config ctx tmo])
         \<and> (\<forall>k \<in> fst ` set (fst b).
               k \<notin> fst ` set percall
               \<longrightarrow> (\<exists>v. (k, v) \<in> set (fst b) \<and> map_of hs k = Some v))
         \<and> (\<forall>k \<in> fst ` set percall. \<exists>v. (k, v) \<in> set percall \<and> map_of hs k = Some v))"

section \<open>Test doubles\<close>

text \<open>Concrete platforms and servers on which the results below are evaluated.\<close>

text \<open>A runtime whose \<^verbatim>\<open>toLowerCase\<close> changes the letters \<^verbatim>\<open>A\<close>..\<^verbatim>\<open>Z\<close> only.\<close>

definition ascii_toLowerCase :: "string \<Rightarrow> string" where
  "ascii_toLowerCase s = map toLowerCaseChar s"

text \<open>
  A runtime whose \<^verbatim>\<open>toLowerCase\<close> also knows the capital letters of Latin-1: \<^verbatim>\<open>U+00C0\<close> to
  \<^verbatim>\<open>U+00DE\<close> without the multiplication sign \<^verbatim>\<open>U+00D7\<close>, in bytes 195 followed by 128 to
  158 without 151, become \<^verbatim>\<open>U+00E0\<close> to \<^verbatim>\<open>U+00FE\<close>, the second byte raised by 32.
\<close>

definition latin1_capital :: "char \<Rightarrow> char \<Rightarrow> bool" where
  "latin1_capital c d \<longleftrightarrow>
     (of_char c :: nat) = 195 \<and> 128 \<le> (of_char d :: nat) \<and> (of_char d :: nat) \<le> 158
     \<and> (of_char d :: nat) \<noteq> 151"

fun latin1_toLowerCase :: "string \<Rightarrow> string" where
  "latin1_toLowerCase [] = []"
| "latin1_toLowerCase [c] = [toLowerCaseChar c]"
| "latin1_toLowerCase (c # d # cs) =
     (if latin1_capital c d
      then c # char_of ((of_char d :: nat) + 32) # latin1_toLowerCase cs
      else toLowerCaseChar c # latin1_toLowerCase (d # cs))"


definition zero_clock :: "'w \<Rightarrow> real \<times> 'w" where
  "zero_clock w = (0, w)"

definition never_answers ::
  "string \<Rightarrow> RequestOptions \<Rightarrow> (nat SuiteQLRawResponse NetSuiteResponse, unit) async" where
  "never_answers u opts w = None"


text \<open>A server with five rows that answers in pages of two, and one with no rows.\<close>

definition three_pages ::
  "string \<Rightarrow> RequestOptions \<Rightarrow> (nat SuiteQLRawResponse NetSuiteResponse, nat) async" where
  "three_pages u opts k =
     Some (Inr \<lparr> data =
                  (if k = 0 then
                     \<lparr> items = [1, 2], totalResults = 5, hasMore = True, offset = 0, count = 2 \<rparr>
                   else if k = 1 then
                     \<lparr> items = [3, 4], totalResults = 5, hasMore = True, offset = 2, count = 2 \<rparr>
                   else
                     \<lparr> items = [5], totalResults = 5, hasMore = False, offset = 4, count = 1 \<rparr>),
                 res_status = 200, res_headers = [], res_duration = 50 \<rparr>, Suc k)"

definition three_pages_client :: "(nat, nat) SuiteQLClient" where
  "three_pages_client = \<lparr>transport_request = three_pages, baseUrl = ''b''\<rparr>"

definition empty_page ::
  "string \<Rightarrow> RequestOptions \<Rightarrow> (nat SuiteQLRawResponse NetSuiteResponse, unit) async" where
  "empty_page u opts w =
     Some (Inr \<lparr> data = \<lparr> items = [], totalResults = 0, hasMore = False, offset = 0, count = 0 \<rparr>,
                 res_status = 200, res_headers = [], res_duration = 50 \<rparr>, w)"

definition empty_page_client :: "(nat, unit) SuiteQLClient" where
  "empty_page_client = \<lparr>transport_request = empty_page, baseUrl = ''b''\<rparr>"


text \<open>
  A generator that always gives 1/2 with a timer that does nothing else, an operation
  that always rejects, and two retry configurations.
\<close>

definition half_runtime :: "unit runtime" where
  "half_runtime = \<lparr> Math_random = (\<lambda>s. (1 / 2, s)), setTimeout = (\<lambda>d s. s) \<rparr>"

definition always_fails :: "(nat, unit) async" where
  "always_fails s = Some (Inl (OtherError ''fail''), s)"

definition two_retries :: "unit PartialRetryConfig" where
  "two_retries =
     \<lparr> p_maxRetries = Some 2, p_initialDelay = None, p_maxDelay = None,
       p_backoffFactor = None, p_shouldRetry = None, p_onRetry = None \<rparr>"

definition negative_backoff :: "unit PartialRetryConfig" where
  "negative_backoff =
     \<lparr> p_maxRetries = Some 2, p_initialDelay = None, p_maxDelay = None,
       p_backoffFactor = Some (- 2), p_shouldRetry = None, p_onRetry = None \<rparr>"

text \<open>Transports, request options and platforms for the transport's results.\<close>

definition default_config :: "'w ResolvedConfig" where
  "default_config = config (HttpTransport_new
     \<lparr> n_timeout = None, n_maxRetries = None, n_retryDelay = None,
       n_defaultHeaders = None, n_logger = None \<rparr>)"

definition no_options :: RequestOptions where
  "no_options = \<lparr> o_method = None, o_headers = None, o_body = JUndefined,
                  o_timeout = None, o_maxRetries = None \<rparr>"

text \<open>A call that supplies its own \<^verbatim>\<open>Authorization\<close> header.\<close>

definition own_authorization :: RequestOptions where
  "own_authorization =
     \<lparr> o_method = None, o_headers = Some [(''Authorization'', ''Bearer mine'')],
       o_body = JUndefined, o_timeout = None, o_maxRetries = None \<rparr>"

definition one_retry :: RequestOptions where
  "one_retry = \<lparr> o_method = None, o_headers = None, o_body = JUndefined,
                 o_timeout = None, o_maxRetries = Some 1 \<rparr>"

text \<open>The context, the response and the middlewares of the repository's chain test.\<close>

definition createContext :: RequestContext where
  "createContext = \<lparr> url = ''https://test.com'', http_method = GET, headers = [],
                     body = JUndefined, metadata = [] \<rparr>"

definition createResponse :: ResponseContext where
  "createResponse = \<lparr> r_status = 200, r_headers = [], r_body = JObj [(''ok'', JBool True)],
                      r_duration = 100 \<rparr>"

text \<open>
  The logging middleware of the tests: it records its entry, awaits \<^verbatim>\<open>next()\<close>, and
  records its exit when \<^verbatim>\<open>next()\<close> resolved (a rejection skips the rest of its body).
\<close>

definition logging_middleware :: "string \<Rightarrow> string list Middleware" where
  "logging_middleware name =
     around (\<lambda>c w. (c, w @ [name @ ''-enter'']))
            (\<lambda>res c w. (res, c, case res of Inl e \<Rightarrow> w | Inr r \<Rightarrow> w @ [name @ ''-exit'']))"

definition logging_handler :: "string list handler" where
  "logging_handler s = Some (Inr createResponse, s\<lparr>world := world s @ [''H'']\<rparr>)"

text \<open>The README's middleware that adds a header, and a transport that uses it.\<close>

definition custom_header_middleware :: "'w Middleware" where
  "custom_header_middleware =
     around (\<lambda>c w. (c\<lparr>headers := AList.update ''X-Custom'' ''value'' (headers c)\<rparr>, w))
            (\<lambda>res c w. (res, c, w))"

definition custom_transport :: "(event list \<times> nat) HttpTransport" where
  "custom_transport = use custom_header_middleware (obs_transport default_config)"

section \<open>Results\<close>

subsection \<open>Account-identifier normalization\<close>

lemma toLowerCaseChar_idem: "toLowerCaseChar (toLowerCaseChar c) = toLowerCaseChar c"
  by (simp add: toLowerCaseChar_def Let_def)

lemma toLowerCaseChar_hyphen: "toLowerCaseChar (CHR ''-'') = CHR ''-''"
  by (simp add: toLowerCaseChar_def)

lemma replaceUnderscores_idem: "replaceUnderscores (replaceUnderscores s) = replaceUnderscores s"
  by (simp add: replaceUnderscores_def)

lemma replaceUnderscores_no_underscore: "CHR ''_'' \<notin> set (replaceUnderscores s)"
  by (auto simp add: replaceUnderscores_def)

lemma ascii_toLowerCase_fixed:
  "map toLowerCaseChar s = s
   \<Longrightarrow> map toLowerCaseChar (replaceUnderscores s) = replaceUnderscores s"
  by (induction s) (auto simp add: replaceUnderscores_def toLowerCaseChar_hyphen)

lemma lowercases_ascii_toLowerCase: "lowercases ascii_toLowerCase"
  unfolding lowercases_def ascii_toLowerCase_def
  by (simp add: toLowerCaseChar_idem ascii_toLowerCase_fixed)

lemma toLowerCaseChar_high: "128 \<le> (of_char c :: nat) \<Longrightarrow> toLowerCaseChar c = c"
  by (simp add: toLowerCaseChar_def)

lemma of_char_toLowerCaseChar:
  "(of_char (toLowerCaseChar c) :: nat)
     = (if 65 \<le> (of_char c :: nat) \<and> (of_char c :: nat) \<le> 90 then of_char c + 32
        else of_char c)"
  by (simp add: toLowerCaseChar_def Let_def)

lemma latin1_step:
  "\<not> (\<exists>d ds. ys = d # ds \<and> latin1_capital x d)
   \<Longrightarrow> latin1_toLowerCase (x # ys) = toLowerCaseChar x # latin1_toLowerCase ys"
  by (cases ys) auto

lemma latin1_head:
  "latin1_toLowerCase (d # cs) = e # es \<Longrightarrow> (of_char e :: nat) = of_char (toLowerCaseChar d)"
  by (cases cs) (auto simp add: latin1_capital_def toLowerCaseChar_high split: if_splits)

lemma latin1_nonempty: "latin1_toLowerCase (d # cs) \<noteq> []"
  by (cases cs) auto

lemma latin1_twice: "latin1_toLowerCase (latin1_toLowerCase s) = latin1_toLowerCase s"
proof (induction s rule: latin1_toLowerCase.induct)
  case 1
  show ?case by simp
next
  case (2 c)
  show ?case by (simp add: toLowerCaseChar_idem)
next
  case (3 c d cs)
  show ?case
  proof (cases "latin1_capital c d")
    case True
    let ?d = "char_of ((of_char d :: nat) + 32) :: char"
    from True have d: "(of_char ?d :: nat) = of_char d + 32" and c: "(of_char c :: nat) = 195"
      by (simp_all add: latin1_capital_def)
    from True d have nc: "\<not> latin1_capital c ?d"
      by (simp add: latin1_capital_def)
    from d True have "\<not> (\<exists>e es. latin1_toLowerCase cs = e # es \<and> latin1_capital ?d e)"
      by (simp add: latin1_capital_def)
    then have "latin1_toLowerCase (?d # latin1_toLowerCase cs)
                 = toLowerCaseChar ?d # latin1_toLowerCase (latin1_toLowerCase cs)"
      by (rule latin1_step)
    moreover from d True have "toLowerCaseChar ?d = ?d"
      by (intro toLowerCaseChar_high) (simp add: latin1_capital_def)
    moreover from c have "toLowerCaseChar c = c"
      by (intro toLowerCaseChar_high) simp
    ultimately show ?thesis
      using True nc 3(1) by simp
  next
    case False
    obtain e es where r: "latin1_toLowerCase (d # cs) = e # es"
      using latin1_nonempty [of d cs] by (cases "latin1_toLowerCase (d # cs)") auto
    from latin1_head [OF r] have e: "(of_char e :: nat) = of_char (toLowerCaseChar d)" .
    have "\<not> latin1_capital (toLowerCaseChar c) e"
    proof
      assume a: "latin1_capital (toLowerCaseChar c) e"
      then have "(of_char (toLowerCaseChar c) :: nat) = 195"
        by (simp add: latin1_capital_def)
      then have c: "(of_char c :: nat) = 195"
        by (simp add: of_char_toLowerCaseChar split: if_splits)
      from a e have "128 \<le> (of_char (toLowerCaseChar d) :: nat)"
        "(of_char (toLowerCaseChar d) :: nat) \<le> 158"
        "(of_char (toLowerCaseChar d) :: nat) \<noteq> 151"
        by (simp_all add: latin1_capital_def)
      then have "128 \<le> (of_char d :: nat)" "(of_char d :: nat) \<le> 158"
        "(of_char d :: nat) \<noteq> 151"
        by (simp_all add: of_char_toLowerCaseChar split: if_splits)
      with c False show False
        by (simp add: latin1_capital_def)
    qed
    with r have "latin1_toLowerCase (toLowerCaseChar c # latin1_toLowerCase (d # cs))
                   = toLowerCaseChar (toLowerCaseChar c)
                     # latin1_toLowerCase (latin1_toLowerCase (d # cs))"
      by simp
    with False 3(2) show ?thesis
      by (simp add: toLowerCaseChar_idem)
  qed
qed

lemma latin1_fixed:
  "latin1_toLowerCase s = s
   \<Longrightarrow> latin1_toLowerCase (replaceUnderscores s) = replaceUnderscores s"
proof (induction s rule: latin1_toLowerCase.induct)
  case 1
  show ?case by (simp add: replaceUnderscores_def)
next
  case (2 c)
  then show ?case by (auto simp add: replaceUnderscores_def toLowerCaseChar_hyphen)
next
  case (3 c d cs)
  let ?r = "\<lambda>c. if c = CHR ''_'' then CHR ''-'' else c"
  have nocap: "\<not> latin1_capital c d"
  proof
    assume a: "latin1_capital c d"
    with 3(3) have "char_of ((of_char d :: nat) + 32) = d"
      by simp
    then have "(of_char (char_of ((of_char d :: nat) + 32) :: char) :: nat) = of_char d"
      by simp
    with a show False
      by (simp add: latin1_capital_def)
  qed
  with 3(3) have c: "toLowerCaseChar c = c" and rest: "latin1_toLowerCase (d # cs) = d # cs"
    by simp_all
  from nocap have "\<not> latin1_capital (?r c) (?r d)"
    by (auto simp add: latin1_capital_def)
  moreover from c have "toLowerCaseChar (?r c) = ?r c"
    by (simp add: toLowerCaseChar_hyphen)
  moreover from 3(2) [OF nocap rest]
  have "latin1_toLowerCase (?r d # replaceUnderscores cs) = ?r d # replaceUnderscores cs"
    by (simp add: replaceUnderscores_def)
  ultimately show ?case
    by (simp add: replaceUnderscores_def)
qed

lemma latin1_ascii: "ascii s \<Longrightarrow> latin1_toLowerCase s = map toLowerCaseChar s"
  by (induction s rule: latin1_toLowerCase.induct)
    (auto simp add: ascii_def latin1_capital_def)

lemma lowercases_latin1_toLowerCase: "lowercases latin1_toLowerCase"
  unfolding lowercases_def
  by (simp add: latin1_twice latin1_fixed latin1_ascii)

text \<open>
  C8. For every account identifier, whatever case mapping the runtime's
  \<^verbatim>\<open>toLowerCase\<close> applies outside ASCII: normalization is \<^verbatim>\<open>toLowerCase\<close> followed by the
  replacement of every underscore with a hyphen, so no underscore is left; on an ASCII
  identifier it maps character by character; it sends \<^verbatim>\<open>1234567_SB1\<close> to
  \<^verbatim>\<open>1234567-sb1\<close>; it is idempotent; and every host the repository builds (the base URL
  that the constructor of \<^verbatim>\<open>SuiteQLClient\<close> stores, the base URLs of the record and
  RESTlet clients, the two URL builders) embeds exactly the normalized identifier.
\<close>

theorem C8_normalizeAccountId:
  assumes "lowercases toLowerCase"
  shows "normalizeAccountId toLowerCase a = replaceUnderscores (toLowerCase a)
   \<and> CHR ''_'' \<notin> set (normalizeAccountId toLowerCase a)
   \<and> (ascii a \<longrightarrow> normalizeAccountId toLowerCase a
         = map (\<lambda>c. if toLowerCaseChar c = CHR ''_'' then CHR ''-'' else toLowerCaseChar c) a)
   \<and> normalizeAccountId toLowerCase ''1234567_SB1'' = ''1234567-sb1''
   \<and> normalizeAccountId toLowerCase (normalizeAccountId toLowerCase a)
       = normalizeAccountId toLowerCase a
   \<and> baseUrl (SuiteQLClient_new toLowerCase tr a)
       = ''https://'' @ normalizeAccountId toLowerCase a
           @ ''.suitetalk.api.netsuite.com/services/rest/query/v1/suiteql''
   \<and> RecordClient_baseUrl toLowerCase a
       = ''https://'' @ normalizeAccountId toLowerCase a
           @ ''.suitetalk.api.netsuite.com/services/rest/record/v1''
   \<and> RestletClient_baseUrl toLowerCase a
       = ''https://'' @ normalizeAccountId toLowerCase a
           @ ''.restlets.api.netsuite.com/app/site/hosting/restlet.nl''
   \<and> buildSuiteTalkUrl toLowerCase a
       = ''https://'' @ normalizeAccountId toLowerCase a @ ''.suitetalk.api.netsuite.com''
   \<and> buildRestletUrl toLowerCase a
       = ''https://'' @ normalizeAccountId toLowerCase a @ ''.restlets.api.netsuite.com''"
proof -
  from assms have twice: "toLowerCase (toLowerCase s) = toLowerCase s" for s
    by (simp add: lowercases_def)
  from assms have fixed:
    "toLowerCase s = s \<Longrightarrow> toLowerCase (replaceUnderscores s) = replaceUnderscores s" for s
    by (simp add: lowercases_def)
  from assms have on_ascii: "ascii s \<Longrightarrow> toLowerCase s = map toLowerCaseChar s" for s
    by (simp add: lowercases_def)
  have shape: "normalizeAccountId toLowerCase a = replaceUnderscores (toLowerCase a)"
    by (simp add: normalizeAccountId_def)
  have none: "CHR ''_'' \<notin> set (normalizeAccountId toLowerCase a)"
    by (simp add: normalizeAccountId_def replaceUnderscores_no_underscore)
  have chars: "ascii a \<longrightarrow> normalizeAccountId toLowerCase a
         = map (\<lambda>c. if toLowerCaseChar c = CHR ''_'' then CHR ''-'' else toLowerCaseChar c) a"
    by (simp add: normalizeAccountId_def on_ascii replaceUnderscores_def)
  have "ascii ''1234567_SB1''"
    by code_simp
  then have "toLowerCase ''1234567_SB1'' = map toLowerCaseChar ''1234567_SB1''"
    by (rule on_ascii)
  moreover have "replaceUnderscores (map toLowerCaseChar ''1234567_SB1'') = ''1234567-sb1''"
    by code_simp
  ultimately have ex: "normalizeAccountId toLowerCase ''1234567_SB1'' = ''1234567-sb1''"
    by (simp only: normalizeAccountId_def)
  have "toLowerCase (replaceUnderscores (toLowerCase a)) = replaceUnderscores (toLowerCase a)"
    by (rule fixed) (rule twice)
  then have idem: "normalizeAccountId toLowerCase (normalizeAccountId toLowerCase a)
       = normalizeAccountId toLowerCase a"
    by (simp add: normalizeAccountId_def replaceUnderscores_idem)
  have hosts: "baseUrl (SuiteQLClient_new toLowerCase tr a)
       = ''https://'' @ normalizeAccountId toLowerCase a
           @ ''.suitetalk.api.netsuite.com/services/rest/query/v1/suiteql''
   \<and> RecordClient_baseUrl toLowerCase a
       = ''https://'' @ normalizeAccountId toLowerCase a
           @ ''.suitetalk.api.netsuite.com/services/rest/record/v1''
   \<and> RestletClient_baseUrl toLowerCase a
       = ''https://'' @ normalizeAccountId toLowerCase a
           @ ''.restlets.api.netsuite.com/app/site/hosting/restlet.nl''
   \<and> buildSuiteTalkUrl toLowerCase a
       = ''https://'' @ normalizeAccountId toLowerCase a @ ''.suitetalk.api.netsuite.com''
   \<and> buildRestletUrl toLowerCase a
       = ''https://'' @ normalizeAccountId toLowerCase a @ ''.restlets.api.netsuite.com''"
    by (simp add: SuiteQLClient_new_def RecordClient_baseUrl_def RestletClient_baseUrl_def
        buildSuiteTalkUrl_def buildRestletUrl_def normalizeAccountId_def Let_def)
  from shape none chars ex idem hosts show ?thesis
    by blast
qed

theorem C8_normalizeAccountId_witness:
  "lowercases ascii_toLowerCase
   \<and> ascii ''ACME_Sb2''
   \<and> normalizeAccountId ascii_toLowerCase ''ACME_Sb2'' = ''acme-sb2''
   \<and> normalizeAccountId ascii_toLowerCase ''acme-sb2'' = ''acme-sb2''
   \<and> baseUrl (SuiteQLClient_new ascii_toLowerCase (transport_request empty_page_client)
               ''ACME_Sb2'')
       = ''https://acme-sb2.suitetalk.api.netsuite.com/services/rest/query/v1/suiteql''
   \<and> lowercases latin1_toLowerCase
   \<and> normalizeAccountId latin1_toLowerCase
         [char_of (195 :: nat), char_of (128 :: nat), CHR ''_'', CHR ''B'']
       = [char_of (195 :: nat), char_of (160 :: nat), CHR ''-'', CHR ''b'']
   \<and> normalizeAccountId latin1_toLowerCase
         [char_of (195 :: nat), char_of (160 :: nat), CHR ''-'', CHR ''b'']
       = [char_of (195 :: nat), char_of (160 :: nat), CHR ''-'', CHR ''b'']"
proof -
  note all = C8_normalizeAccountId
         [OF lowercases_ascii_toLowerCase, of "''ACME_Sb2''" "transport_request empty_page_client"]
  have a: "ascii ''ACME_Sb2''"
    by code_simp
  have e: "map (\<lambda>c. if toLowerCaseChar c = CHR ''_'' then CHR ''-'' else toLowerCaseChar c)
             ''ACME_Sb2'' = ''acme-sb2''"
    by code_simp
  from all a have "normalizeAccountId ascii_toLowerCase ''ACME_Sb2''
      = map (\<lambda>c. if toLowerCaseChar c = CHR ''_'' then CHR ''-'' else toLowerCaseChar c)
          ''ACME_Sb2''"
    by blast
  with e have n: "normalizeAccountId ascii_toLowerCase ''ACME_Sb2'' = ''acme-sb2''"
    by (simp only:)
  from all have "normalizeAccountId ascii_toLowerCase
                   (normalizeAccountId ascii_toLowerCase ''ACME_Sb2'')
                 = normalizeAccountId ascii_toLowerCase ''ACME_Sb2''"
    by blast
  with n have i: "normalizeAccountId ascii_toLowerCase ''acme-sb2'' = ''acme-sb2''"
    by (simp only:)
  from all have "baseUrl (SuiteQLClient_new ascii_toLowerCase
                            (transport_request empty_page_client) ''ACME_Sb2'')
       = ''https://'' @ normalizeAccountId ascii_toLowerCase ''ACME_Sb2''
           @ ''.suitetalk.api.netsuite.com/services/rest/query/v1/suiteql''"
    by blast
  with n have "baseUrl (SuiteQLClient_new ascii_toLowerCase
                            (transport_request empty_page_client) ''ACME_Sb2'')
       = ''https://'' @ ''acme-sb2''
           @ ''.suitetalk.api.netsuite.com/services/rest/query/v1/suiteql''"
    by (simp only:)
  then have u: "baseUrl (SuiteQLClient_new ascii_toLowerCase
                            (transport_request empty_page_client) ''ACME_Sb2'')
       = ''https://acme-sb2.suitetalk.api.netsuite.com/services/rest/query/v1/suiteql''"
    by simp
  let ?A = "[char_of (195 :: nat), char_of (128 :: nat), CHR ''_'', CHR ''B'']"
  let ?a = "[char_of (195 :: nat), char_of (160 :: nat), CHR ''-'', CHR ''b'']"
  note latin = C8_normalizeAccountId
         [OF lowercases_latin1_toLowerCase, of ?A "transport_request empty_page_client"]
  have "replaceUnderscores (latin1_toLowerCase ?A) = ?a"
    by code_simp
  with latin have n': "normalizeAccountId latin1_toLowerCase ?A = ?a"
    by (simp only:)
  from latin have "normalizeAccountId latin1_toLowerCase
                     (normalizeAccountId latin1_toLowerCase ?A)
                   = normalizeAccountId latin1_toLowerCase ?A"
    by blast
  with n' have i': "normalizeAccountId latin1_toLowerCase ?a = ?a"
    by (simp only:)
  from lowercases_ascii_toLowerCase a n i u lowercases_latin1_toLowerCase n' i'
  show ?thesis
    by (intro conjI)
qed


subsection \<open>Paginated queries\<close>

lemma js_le_min_nonpos: "p \<noteq> NaN \<Longrightarrow> k \<le> 0 \<Longrightarrow> js_le (js_min p (Fin k)) (Fin 0)"
  by (cases p) auto

lemma query_loop_no_request:
  "js_le (js_min pgSize (js_minus mxRows (int (length (allItems vars))))) (Fin 0)
   \<Longrightarrow> query_loop client sql pgSize mxRows tmo vars w = Some (Inr vars, w)"
  by (subst query_loop.simps) (simp add: Let_def)

text \<open>
  C10 (as amended). With \<^verbatim>\<open>maxRows <= 0\<close> and a \<^verbatim>\<open>pageSize\<close> that is not \<^verbatim>\<open>NaN\<close> (absent,
  a number or \<^verbatim>\<open>Infinity\<close>) the call returns, whatever the transport is (also one that
  never answers): the world is touched by the two clock reads only, so no request is
  issued, and the result has no items, \<^verbatim>\<open>totalResults = 0\<close>, \<^verbatim>\<open>pagesFetched = 0\<close> and
  \<^verbatim>\<open>hasMore = false\<close>.
\<close>

theorem C10_query_maxRows_nonpositive:
  assumes "maxRows options = Some mr" and "js_le mr (Fin 0)"
    and "pageSize options \<noteq> Some NaN"
  shows "query now client sql options w =
           (let (t0, w1) = now w; (t1, w2) = now w1
            in Some (Inr \<lparr> q_items = [], q_totalResults = 0, q_pagesFetched = 0,
                           q_hasMore = False, q_duration = round (t1 - t0) \<rparr>, w2))"
proof -
  let ?pg = "case pageSize options of None \<Rightarrow> Fin 1000 | Some v \<Rightarrow> v"
  from assms(3) have pg: "?pg \<noteq> NaN"
    by (cases "pageSize options") auto
  from assms(2) obtain k where mr: "mr = Fin k" and k: "k \<le> 0"
    by (cases mr) auto
  have "query_loop client sql ?pg (Fin k) tmo
          \<lparr> allItems = [], currentOffset = off, v_totalResults = 0, pagesFetched = 0 \<rparr> w1
        = Some (Inr \<lparr> allItems = [], currentOffset = off, v_totalResults = 0,
                      pagesFetched = 0 \<rparr>, w1)" for tmo off w1
    using k pg by (intro query_loop_no_request) (simp add: js_le_min_nonpos)
  then show ?thesis
    using assms(1) mr by (simp add: query_def Let_def split: prod.splits)
qed

theorem C10_query_maxRows_nonpositive_witness:
  "query zero_clock \<lparr>transport_request = never_answers, baseUrl = ''b''\<rparr> ''SELECT 1''
     \<lparr>pageSize = None, startOffset = None, maxRows = Some (Fin 0), q_timeout = None\<rparr> ()
   = Some (Inr \<lparr> q_items = [], q_totalResults = 0, q_pagesFetched = 0,
                  q_hasMore = False, q_duration = 0 \<rparr>, ())"
  using C10_query_maxRows_nonpositive
    [of "\<lparr>pageSize = None, startOffset = None, maxRows = Some (Fin 0), q_timeout = None\<rparr>"
        "Fin 0" zero_clock "\<lparr>transport_request = never_answers, baseUrl = ''b''\<rparr>"
        "''SELECT 1''" "()"]
  by (simp add: zero_clock_def)








lemma show_int_0: "show_int 0 = ''0''"
  by (simp add: show_int_def show_nat.simps)
lemma show_int_1: "show_int 1 = ''1''"
  by (simp add: show_int_def show_nat.simps)
lemma show_int_2: "show_int 2 = ''2''"
  by (simp add: show_int_def show_nat.simps)
lemma show_int_5000: "show_int 5000 = ''5000''"
  by (simp add: show_int_def show_nat.simps)

lemma three_pages_client_request:
  "transport_request (obs_client three_pages_client) u opts (tr, k) =
     (case three_pages u opts k of
        None \<Rightarrow> None
      | Some (Inl e, w') \<Rightarrow> Some (Inl e, (tr @ [Requested u opts, Failed e], w'))
      | Some (Inr response, w') \<Rightarrow>
          Some (Inr response,
                (tr @ [Requested u opts,
                       Answered (length (items (data response)))
                         (totalResults (data response)) (hasMore (data response))],
                 w')))"
  by (simp add: obs_client_def three_pages_client_def)

lemma three_pages_client_base: "baseUrl (obs_client three_pages_client) = ''b''"
  by (simp add: obs_client_def three_pages_client_def)


lemma empty_page_client_request:
  "transport_request (obs_client empty_page_client) u opts (tr, w) =
     (case empty_page u opts w of
        None \<Rightarrow> None
      | Some (Inl e, w') \<Rightarrow> Some (Inl e, (tr @ [Requested u opts, Failed e], w'))
      | Some (Inr response, w') \<Rightarrow>
          Some (Inr response,
                (tr @ [Requested u opts,
                       Answered (length (items (data response)))
                         (totalResults (data response)) (hasMore (data response))],
                 w')))"
  by (simp add: obs_client_def empty_page_client_def)

lemma empty_page_client_base: "baseUrl (obs_client empty_page_client) = ''b''"
  by (simp add: obs_client_def empty_page_client_def)

text \<open>
  C4. The documentation of \<^verbatim>\<open>SuiteQLOptions.pageSize\<close> (\<^verbatim>\<open>Default: 1000, Max: 1000\<close>) and the
  README give 1000 as the maximum, and \<^verbatim>\<open>query\<close> does not enforce it: a call with
  \<^verbatim>\<open>pageSize: 5000\<close> sends \<^verbatim>\<open>limit=5000\<close> to the server.
\<close>

theorem C4_pageSize_5000_requested:
  "query (obs_clock zero_clock) (obs_client empty_page_client) ''SELECT 1''
      \<lparr>pageSize = Some (Fin 5000), startOffset = None, maxRows = None, q_timeout = None\<rparr>
      ([], ())
   = Some (Inr \<lparr> q_items = [], q_totalResults = 0, q_pagesFetched = 1,
                  q_hasMore = False, q_duration = 0 \<rparr>,
           ([Requested ''b?limit=5000&offset=0'' (page_options ''SELECT 1'' None),
             Answered 0 0 False], ()))"
  by (simp add: query_def query_loop.simps obs_clock_def zero_clock_def
      empty_page_client_request empty_page_client_base empty_page_def page_url_def
      show_int_0 show_int_5000)

text \<open>
  C10 as stated fails: \<^verbatim>\<open>query(sql, {pageSize: NaN, maxRows: 0})\<close> computes the limit
  \<^verbatim>\<open>Math.min(NaN, 0) = NaN\<close>, the test \<^verbatim>\<open>NaN <= 0\<close> is false, and a request with
  \<^verbatim>\<open>limit=NaN\<close> is sent; the result counts one page.
\<close>

theorem C10_pageSize_NaN_counterexample:
  "query (obs_clock zero_clock) (obs_client empty_page_client) ''SELECT 1''
      \<lparr>pageSize = Some NaN, startOffset = None, maxRows = Some (Fin 0), q_timeout = None\<rparr>
      ([], ())
   = Some (Inr \<lparr> q_items = [], q_totalResults = 0, q_pagesFetched = 1,
                  q_hasMore = False, q_duration = 0 \<rparr>,
           ([Requested ''b?limit=NaN&offset=0'' (page_options ''SELECT 1'' None),
             Answered 0 0 False], ()))"
  by (simp add: query_def query_loop.simps obs_clock_def zero_clock_def
      empty_page_client_request empty_page_client_base empty_page_def page_url_def
      show_int_0)

text \<open>
  The subtraction \<^verbatim>\<open>maxRows - allItems.length\<close> at work: with \<^verbatim>\<open>pageSize: 2\<close> and
  \<^verbatim>\<open>maxRows: 3\<close> the second request asks for the one row still wanted.
\<close>

lemma three_pages_maxRows_run:
  "query (obs_clock zero_clock) (obs_client three_pages_client) ''SELECT 1''
      \<lparr>pageSize = Some (Fin 2), startOffset = None, maxRows = Some (Fin 3), q_timeout = None\<rparr>
      ([], 0)
   = Some (Inr \<lparr> q_items = [1, 2, 3, 4], q_totalResults = 5, q_pagesFetched = 2,
                  q_hasMore = True, q_duration = 0 \<rparr>,
           ([Requested ''b?limit=2&offset=0'' (page_options ''SELECT 1'' None),
             Answered 2 5 True,
             Requested ''b?limit=1&offset=2'' (page_options ''SELECT 1'' None),
             Answered 2 5 True], 2))"
  by (simp add: query_def query_loop.simps obs_clock_def zero_clock_def
      three_pages_client_request three_pages_client_base three_pages_def page_url_def
      show_int_0 show_int_1 show_int_2)


subsection \<open>The retry engine\<close>

lemma merge_obs: 
  "merge_config DEFAULT_RETRY_CONFIG (obs_retry_config c)
     = obs_opts (merge_config DEFAULT_RETRY_CONFIG c)"
  by (simp add: merge_config_def obs_retry_config_def obs_opts_def DEFAULT_RETRY_CONFIG_def
      split: option.splits)

lemma obs_opts_sel [simp]:
  "maxRetries (obs_opts c) = maxRetries c"
  "initialDelay (obs_opts c) = initialDelay c"
  "maxDelay (obs_opts c) = maxDelay c"
  "backoffFactor (obs_opts c) = backoffFactor c"
  "shouldRetry (obs_opts c) = shouldRetry c"
  by (simp_all add: obs_opts_def)

lemma retry_loop_obs_unfold:
  "retry_loop (obs_runtime rt) (obs_fn fn) (obs_opts opts) a (tr, s) =
     (if a \<le> maxRetries opts then
        (case fn s of
           None \<Rightarrow> None
         | Some (Inr v, s1) \<Rightarrow> Some (Inr v, (tr @ [Called], s1))
         | Some (Inl e, s1) \<Rightarrow>
             if a = maxRetries opts \<or> \<not> shouldRetry opts e a
             then Some (Inl e, (tr @ [Called], s1))
             else retry_loop (obs_runtime rt) (obs_fn fn) (obs_opts opts) (a + 1)
                    (tr @ [Called, Drew (drawn rt opts e a s1),
                           Slept (slept_for opts (nat a) (drawn rt opts e a s1))],
                     between rt opts e a s1))
      else Some (Inl (OtherError ''Retry loop exited unexpectedly''), (tr, s)))"
  apply (subst retry_loop.simps)
  apply (simp add: obs_fn_def obs_runtime_def Let_def between_def drawn_def slept_for_def
      backoff_delay_def split: option.splits sum.splits prod.splits)
  apply (auto simp add: obs_opts_def split: option.splits)
  done

lemma draws_append [simp]: "draws (xs @ ys) = draws xs @ draws ys"
  by (induction xs rule: draws.induct) simp_all

lemma sleeps_append [simp]: "sleeps (xs @ ys) = sleeps xs @ sleeps ys"
  by (induction xs rule: sleeps.induct) simp_all

lemma calls_append [simp]: "calls (xs @ ys) = calls xs + calls ys"
  by (simp add: calls_def)

lemma calls_simps [simp]:
  "calls [] = 0" "calls (Called # es) = Suc (calls es)"
  "calls (Drew r # es) = calls es" "calls (Slept d # es) = calls es"
  by (simp_all add: calls_def)

lemma retry_calls_bound:
  assumes "0 \<le> a" and "a \<le> maxRetries opts"
    and "retry_loop (obs_runtime rt) (obs_fn fn) (obs_opts opts) a (tr, s) = Some (res, (tr', s'))"
  shows "\<exists>t. tr' = tr @ t \<and> 1 \<le> calls t \<and> calls t \<le> nat (maxRetries opts - a) + 1"
  using assms
proof (induction n \<equiv> "nat (maxRetries opts - a)" arbitrary: a tr s)
  case 0
  then have final: "a = maxRetries opts" by simp
  from 0(4) final have "tr' = tr @ [Called]"
    by (subst (asm) retry_loop_obs_unfold)
      (auto split: option.splits sum.splits)
  then show ?case by simp
next
  case (Suc n)
  then have notlast: "a \<noteq> maxRetries opts" and le: "a \<le> maxRetries opts" by auto
  from Suc(5) obtain r s1 where fn: "fn s = Some (r, s1)"
    by (subst (asm) retry_loop_obs_unfold) (auto simp add: le split: option.splits)
  show ?case
  proof (cases r)
    case (Inr v)
    with Suc(5) fn le have "tr' = tr @ [Called]"
      by (subst (asm) retry_loop_obs_unfold) auto
    then show ?thesis by simp
  next
    case (Inl e)
    show ?thesis
    proof (cases "shouldRetry opts e a")
      case False
      with Suc(5) fn le Inl have "tr' = tr @ [Called]"
        by (subst (asm) retry_loop_obs_unfold) auto
      then show ?thesis by simp
    next
      case True
      let ?tr2 = "tr @ [Called, Drew (drawn rt opts e a s1),
                        Slept (slept_for opts (nat a) (drawn rt opts e a s1))]"
      from Suc(5) fn le Inl True notlast
      have rec: "retry_loop (obs_runtime rt) (obs_fn fn) (obs_opts opts) (a + 1)
                   (?tr2, between rt opts e a s1) = Some (res, (tr', s'))"
        by (subst (asm) retry_loop_obs_unfold) auto
      have n: "n = nat (maxRetries opts - (a + 1))" using Suc(2) by linarith
      from Suc(1) [OF n _ _ rec] Suc(3) le notlast
      obtain t where t: "tr' = ?tr2 @ t" and c: "1 \<le> calls t"
        "calls t \<le> nat (maxRetries opts - (a + 1)) + 1"
        by auto
      have "nat (maxRetries opts - a) = Suc (nat (maxRetries opts - (a + 1)))"
        using le notlast by linarith
      with t c show ?thesis by (intro exI [of _ "[Called, Drew (drawn rt opts e a s1),
                        Slept (slept_for opts (nat a) (drawn rt opts e a s1))] @ t"]) simp
    qed
  qed
qed

lemma retry_calls_exact:
  assumes fails: "\<And>s. \<exists>e s'. fn s = Some (Inl e, s') \<and> (\<forall>k. shouldRetry opts e k)"
    and "0 \<le> a" and "a \<le> maxRetries opts"
  shows "\<exists>e t s'. retry_loop (obs_runtime rt) (obs_fn fn) (obs_opts opts) a (tr, s)
                     = Some (Inl e, (tr @ t, s'))
                 \<and> calls t = nat (maxRetries opts - a) + 1"
  using assms(2,3)
proof (induction n \<equiv> "nat (maxRetries opts - a)" arbitrary: a tr s)
  case 0
  then have final: "a = maxRetries opts" by simp
  from fails obtain e s1 where fn: "fn s = Some (Inl e, s1)" by blast
  have "retry_loop (obs_runtime rt) (obs_fn fn) (obs_opts opts) a (tr, s)
          = Some (Inl e, (tr @ [Called], s1))"
    using fn final by (subst retry_loop_obs_unfold) simp
  with final show ?case by (intro exI [of _ e] exI [of _ "[Called]"] exI [of _ s1]) simp
next
  case (Suc n)
  then have notlast: "a \<noteq> maxRetries opts" and le: "a \<le> maxRetries opts" by auto
  from fails obtain e s1 where fn: "fn s = Some (Inl e, s1)"
    and accepts: "\<And>k. shouldRetry opts e k" by blast
  let ?ev = "[Called, Drew (drawn rt opts e a s1),
              Slept (slept_for opts (nat a) (drawn rt opts e a s1))]"
  have step: "retry_loop (obs_runtime rt) (obs_fn fn) (obs_opts opts) a (tr, s)
      = retry_loop (obs_runtime rt) (obs_fn fn) (obs_opts opts) (a + 1)
          (tr @ ?ev, between rt opts e a s1)"
    using fn le notlast accepts by (subst retry_loop_obs_unfold) simp
  have n: "n = nat (maxRetries opts - (a + 1))" using Suc(2) by linarith
  from Suc(1) [OF n, of "tr @ ?ev" "between rt opts e a s1"] Suc(3) le notlast
  obtain e' t s' where
    r: "retry_loop (obs_runtime rt) (obs_fn fn) (obs_opts opts) (a + 1)
          (tr @ ?ev, between rt opts e a s1) = Some (Inl e', ((tr @ ?ev) @ t, s'))"
    and c: "calls t = nat (maxRetries opts - (a + 1)) + 1"
    by auto
  have "nat (maxRetries opts - a) = Suc (nat (maxRetries opts - (a + 1)))"
    using le notlast by linarith
  with step r c show ?case
    by (intro exI [of _ e'] exI [of _ "?ev @ t"] exI [of _ s']) simp
qed

lemma retry_success_returns:
  assumes "a \<le> maxRetries opts" and "fn s = Some (Inr v, s1)"
  shows "retry_loop rt fn opts a s = Some (Inr v, s1)"
  using assms by (subst retry_loop.simps) simp

lemma retry_sleeps:
  assumes "0 \<le> a"
    and range: "\<And>s. 0 \<le> fst (Math_random rt s) \<and> fst (Math_random rt s) < 1"
    and "retry_loop (obs_runtime rt) (obs_fn fn) (obs_opts opts) a (tr, s) = Some (res, (tr', s'))"
  shows "\<exists>rs. draws tr' = draws tr @ rs \<and> (\<forall>r \<in> set rs. 0 \<le> r \<and> r < 1)
           \<and> sleeps tr' = sleeps tr
                @ map (\<lambda>(k, r). slept_for opts k r) (zip [nat a ..< nat a + length rs] rs)"
  using assms(1,3)
proof (induction n \<equiv> "nat (maxRetries opts + 1 - a)" arbitrary: a tr s)
  case 0
  then have "\<not> a \<le> maxRetries opts" by simp
  with 0(3) have "tr' = tr"
    by (subst (asm) retry_loop_obs_unfold) simp
  then show ?case by simp
next
  case (Suc n)
  then have le: "a \<le> maxRetries opts" by simp
  from Suc(4) obtain r s1 where fn: "fn s = Some (r, s1)"
    by (subst (asm) retry_loop_obs_unfold) (auto simp add: le split: option.splits)
  show ?case
  proof (cases "\<exists>e. r = Inl e \<and> a \<noteq> maxRetries opts \<and> shouldRetry opts e a")
    case False
    with Suc(4) fn le have "tr' = tr @ [Called]"
      by (subst (asm) retry_loop_obs_unfold) (cases r; auto)
    then show ?thesis by simp
  next
    case True
    then obtain e where Inl: "r = Inl e" and notlast: "a \<noteq> maxRetries opts"
      and sr: "shouldRetry opts e a" by blast
    let ?d = "drawn rt opts e a s1"
    let ?tr2 = "tr @ [Called, Drew ?d, Slept (slept_for opts (nat a) ?d)]"
    from Suc(4) fn le Inl sr notlast
    have rec: "retry_loop (obs_runtime rt) (obs_fn fn) (obs_opts opts) (a + 1)
                 (?tr2, between rt opts e a s1) = Some (res, (tr', s'))"
      by (subst (asm) retry_loop_obs_unfold) auto
    have n: "n = nat (maxRetries opts + 1 - (a + 1))" using Suc(2) by linarith
    from Suc(1) [OF n _ rec] Suc(3)
    obtain rs where d: "draws tr' = draws ?tr2 @ rs"
      and rg: "\<forall>r \<in> set rs. 0 \<le> r \<and> r < 1"
      and sl: "sleeps tr' = sleeps ?tr2
                 @ map (\<lambda>(k, r). slept_for opts k r)
                     (zip [nat (a + 1) ..< nat (a + 1) + length rs] rs)"
      by auto
    have na: "nat (a + 1) = Suc (nat a)" using Suc(3) by simp
    have rd: "0 \<le> ?d \<and> ?d < 1" using range by (simp add: drawn_def)
    have upt: "[nat a ..< nat a + length (?d # rs)]
                 = nat a # [Suc (nat a) ..< Suc (nat a) + length rs]"
      by (subst upt_rec) simp
    show ?thesis
    proof (intro exI [of _ "?d # rs"] conjI)
      show "draws tr' = draws tr @ ?d # rs" using d by simp
      show "\<forall>r \<in> set (?d # rs). 0 \<le> r \<and> r < 1" using rg rd by simp
      show "sleeps tr' = sleeps tr
              @ map (\<lambda>(k, r). slept_for opts k r)
                  (zip [nat a ..< nat a + length (?d # rs)] (?d # rs))"
        unfolding upt using sl na by simp
    qed
  qed
qed

lemma slept_for_bounds:
  assumes "0 \<le> initialDelay opts" and "0 \<le> maxDelay opts" and "0 \<le> backoffFactor opts"
    and "0 \<le> r" and "r < 1"
  shows "0 \<le> slept_for opts k r" and "slept_for opts k r \<le> maxDelay opts * 1.25"
proof -
  let ?d = "backoff_delay opts k"
  have d0: "0 \<le> ?d" using assms(1-3) by (simp add: backoff_delay_def)
  have d1: "?d \<le> maxDelay opts" by (simp add: backoff_delay_def)
  have eq: "slept_for opts k r = ?d * (0.75 + 0.5 * r)"
    by (simp add: slept_for_def field_simps)
  have f0: "0 \<le> 0.75 + 0.5 * r" and f1: "0.75 + 0.5 * r \<le> 1.25" using assms(4,5) by auto
  show "0 \<le> slept_for opts k r" unfolding eq using d0 f0 by (rule mult_nonneg_nonneg)
  have "?d * (0.75 + 0.5 * r) \<le> maxDelay opts * 1.25"
    using d0 d1 f0 f1 by (intro mult_mono) auto
  then show "slept_for opts k r \<le> maxDelay opts * 1.25" unfolding eq .
qed

lemma withRetry_obs:
  "withRetry (obs_runtime rt) (obs_fn fn) (obs_retry_config cfg) (tr, s)
     = retry_loop (obs_runtime rt) (obs_fn fn)
         (obs_opts (merge_config DEFAULT_RETRY_CONFIG cfg)) 0 (tr, s)"
  by (simp add: withRetry_def merge_obs)

text \<open>
  C1. With \<^verbatim>\<open>maxRetries = N >= 0\<close>: a run of \<^verbatim>\<open>withRetry\<close> that returns has invoked the
  operation at least once and at most \<open>N + 1\<close> times; when every invocation rejects with
  an error the predicate accepts, the run returns that rejection after exactly \<open>N + 1\<close>
  invocations; and at every attempt an invocation that resolves ends the run at once
  with its value: one more invocation in the log, no callback, no draw, no sleep.
\<close>

theorem C1_withRetry_invocations:
  assumes "opts = merge_config DEFAULT_RETRY_CONFIG cfg" and "0 \<le> maxRetries opts"
  shows "(withRetry (obs_runtime rt) (obs_fn fn) (obs_retry_config cfg) (tr, s)
            = Some (res, (tr', s'))
          \<longrightarrow> (\<exists>t. tr' = tr @ t \<and> 1 \<le> calls t \<and> calls t \<le> nat (maxRetries opts) + 1))
       \<and> ((\<forall>s. \<exists>e s'. fn s = Some (Inl e, s') \<and> (\<forall>k. shouldRetry opts e k))
          \<longrightarrow> (\<exists>e t s'. withRetry (obs_runtime rt) (obs_fn fn) (obs_retry_config cfg) (tr, s)
                           = Some (Inl e, (tr @ t, s'))
                        \<and> calls t = nat (maxRetries opts) + 1))
       \<and> (\<forall>a tr s v s1. a \<le> maxRetries opts \<and> fn s = Some (Inr v, s1)
          \<longrightarrow> retry_loop (obs_runtime rt) (obs_fn fn) (obs_opts opts) a (tr, s)
                = Some (Inr v, (tr @ [Called], s1)))"
proof (intro conjI impI allI)
  assume "withRetry (obs_runtime rt) (obs_fn fn) (obs_retry_config cfg) (tr, s)
            = Some (res, (tr', s'))"
  then have "retry_loop (obs_runtime rt) (obs_fn fn) (obs_opts opts) 0 (tr, s)
               = Some (res, (tr', s'))"
    by (simp add: withRetry_obs assms(1))
  from retry_calls_bound [OF _ assms(2) this]
  show "\<exists>t. tr' = tr @ t \<and> 1 \<le> calls t \<and> calls t \<le> nat (maxRetries opts) + 1"
    by simp
next
  assume "\<forall>s. \<exists>e s'. fn s = Some (Inl e, s') \<and> (\<forall>k. shouldRetry opts e k)"
  then have f: "\<And>s. \<exists>e s'. fn s = Some (Inl e, s') \<and> (\<forall>k. shouldRetry opts e k)"
    by blast
  from retry_calls_exact [of fn opts 0 rt tr s, OF f _ assms(2)]
  show "\<exists>e t s'. withRetry (obs_runtime rt) (obs_fn fn) (obs_retry_config cfg) (tr, s)
                           = Some (Inl e, (tr @ t, s'))
                        \<and> calls t = nat (maxRetries opts) + 1"
    by (simp add: withRetry_obs assms(1))
next
  fix a :: int and tr :: "event list" and s v s1
  assume "a \<le> maxRetries opts \<and> fn s = Some (Inr v, s1)"
  then show "retry_loop (obs_runtime rt) (obs_fn fn) (obs_opts opts) a (tr, s)
                = Some (Inr v, (tr @ [Called], s1))"
    by (subst retry_loop_obs_unfold) simp
qed

lemma two_retries_opts:
  "maxRetries (merge_config DEFAULT_RETRY_CONFIG two_retries) = 2"
  "shouldRetry (merge_config DEFAULT_RETRY_CONFIG two_retries) (OtherError m) k"
  by (simp_all add: merge_config_def DEFAULT_RETRY_CONFIG_def two_retries_def)

theorem C1_withRetry_invocations_witness:
  "\<exists>e t s'. withRetry (obs_runtime half_runtime) (obs_fn always_fails)
               (obs_retry_config two_retries) ([], ())
             = Some (Inl e, (t, s'))
           \<and> calls t = 3"
proof -
  let ?opts = "merge_config DEFAULT_RETRY_CONFIG two_retries"
  have n: "0 \<le> maxRetries ?opts"
    by (simp add: two_retries_opts)
  have f: "\<forall>s. \<exists>e s'. always_fails s = Some (Inl e, s') \<and> (\<forall>k. shouldRetry ?opts e k)"
    using two_retries_opts(2) by (auto simp add: always_fails_def)
  from C1_withRetry_invocations [OF refl n, of half_runtime always_fails "[]" "()"] f
  have "\<exists>e t s'. withRetry (obs_runtime half_runtime) (obs_fn always_fails)
                    (obs_retry_config two_retries) ([], ())
                  = Some (Inl e, ([] @ t, s'))
                \<and> calls t = nat (maxRetries ?opts) + 1"
    by blast
  then show ?thesis
    by (simp add: two_retries_opts)
qed

text \<open>
  C6 (as amended). With \<^verbatim>\<open>initialDelay\<close>, \<^verbatim>\<open>maxDelay\<close> and \<^verbatim>\<open>backoffFactor\<close> not negative
  and every \<^verbatim>\<open>Math.random()\<close> in \<open>[0, 1)\<close>: the sleep after the attempt with index \<open>k\<close>
  lasts \<open>delay + delay * 0.25 * (2 r - 1)\<close> for \<open>delay = min(d0 * b^k, dmax)\<close> and the
  number \<open>r\<close> drawn for it, which is neither negative nor more than \<open>dmax * 1.25\<close>.
\<close>

theorem C6_backoff_sleep:
  assumes "opts = merge_config DEFAULT_RETRY_CONFIG cfg"
    and "0 \<le> initialDelay opts" and "0 \<le> maxDelay opts" and "0 \<le> backoffFactor opts"
    and "\<And>s. 0 \<le> fst (Math_random rt s) \<and> fst (Math_random rt s) < 1"
    and "withRetry (obs_runtime rt) (obs_fn fn) (obs_retry_config cfg) ([], s)
           = Some (res, (tr, s'))"
  shows "length (draws tr) = length (sleeps tr)
       \<and> (\<forall>k < length (sleeps tr).
            0 \<le> draws tr ! k \<and> draws tr ! k < 1
          \<and> sleeps tr ! k
              = min (initialDelay opts * backoffFactor opts ^ k) (maxDelay opts)
                + min (initialDelay opts * backoffFactor opts ^ k) (maxDelay opts)
                  * 0.25 * (draws tr ! k * 2 - 1)
          \<and> 0 \<le> sleeps tr ! k \<and> sleeps tr ! k \<le> maxDelay opts * 1.25)"
proof -
  from assms(6) have "retry_loop (obs_runtime rt) (obs_fn fn) (obs_opts opts) 0 ([], s)
                        = Some (res, (tr, s'))"
    by (simp add: withRetry_obs assms(1))
  from retry_sleeps [OF _ assms(5) this]
  have "\<exists>rs. draws tr = rs \<and> (\<forall>r \<in> set rs. 0 \<le> r \<and> r < 1)
          \<and> sleeps tr = map (\<lambda>(k, r). slept_for opts k r) (zip [0 ..< length rs] rs)"
    by simp
  then have rg: "\<forall>r \<in> set (draws tr). 0 \<le> r \<and> r < 1"
    and sl: "sleeps tr = map (\<lambda>(k, r). slept_for opts k r)
                          (zip [0 ..< length (draws tr)] (draws tr))"
    by auto
  have len: "length (sleeps tr) = length (draws tr)"
    by (subst sl) simp
  have H: "0 \<le> draws tr ! k \<and> draws tr ! k < 1
          \<and> sleeps tr ! k
              = min (initialDelay opts * backoffFactor opts ^ k) (maxDelay opts)
                + min (initialDelay opts * backoffFactor opts ^ k) (maxDelay opts)
                  * 0.25 * (draws tr ! k * 2 - 1)
          \<and> 0 \<le> sleeps tr ! k \<and> sleeps tr ! k \<le> maxDelay opts * 1.25"
    if k: "k < length (draws tr)" for k
  proof -
    from k rg have r: "0 \<le> draws tr ! k" "draws tr ! k < 1" by auto
    have e: "sleeps tr ! k = slept_for opts k (draws tr ! k)"
      by (subst sl) (simp add: k)
    have e': "slept_for opts k (draws tr ! k)
              = min (initialDelay opts * backoffFactor opts ^ k) (maxDelay opts)
                + min (initialDelay opts * backoffFactor opts ^ k) (maxDelay opts)
                  * 0.25 * (draws tr ! k * 2 - 1)"
      by (simp only: slept_for_def backoff_delay_def)
    from slept_for_bounds [OF assms(2-4) r, of k]
    have b: "0 \<le> sleeps tr ! k" "sleeps tr ! k \<le> maxDelay opts * 1.25"
      unfolding e by blast+
    from e e' have e'': "sleeps tr ! k
              = min (initialDelay opts * backoffFactor opts ^ k) (maxDelay opts)
                + min (initialDelay opts * backoffFactor opts ^ k) (maxDelay opts)
                  * 0.25 * (draws tr ! k * 2 - 1)"
      by (rule trans)
    from r e'' b show ?thesis by blast
  qed
  have "length (draws tr) = length (sleeps tr)" using len by simp
  moreover have "\<forall>k < length (sleeps tr).
            0 \<le> draws tr ! k \<and> draws tr ! k < 1
          \<and> sleeps tr ! k
              = min (initialDelay opts * backoffFactor opts ^ k) (maxDelay opts)
                + min (initialDelay opts * backoffFactor opts ^ k) (maxDelay opts)
                  * 0.25 * (draws tr ! k * 2 - 1)
          \<and> 0 \<le> sleeps tr ! k \<and> sleeps tr ! k \<le> maxDelay opts * 1.25"
  proof (rule allI, rule impI)
    fix k
    assume "k < length (sleeps tr)"
    then have "k < length (draws tr)" using len by simp
    then show "0 \<le> draws tr ! k \<and> draws tr ! k < 1
          \<and> sleeps tr ! k
              = min (initialDelay opts * backoffFactor opts ^ k) (maxDelay opts)
                + min (initialDelay opts * backoffFactor opts ^ k) (maxDelay opts)
                  * 0.25 * (draws tr ! k * 2 - 1)
          \<and> 0 \<le> sleeps tr ! k \<and> sleeps tr ! k \<le> maxDelay opts * 1.25"
      by (rule H)
  qed
  ultimately show ?thesis by (rule conjI)
qed

lemma half_runtime_sel:
  "Math_random half_runtime s = (1 / 2, s)" "setTimeout half_runtime d s = s"
  by (simp_all add: half_runtime_def)

lemma negative_backoff_merged:
  "merge_config DEFAULT_RETRY_CONFIG negative_backoff
     = (DEFAULT_RETRY_CONFIG :: unit RetryConfig)\<lparr> maxRetries := 2, backoffFactor := - 2 \<rparr>"
  by (simp add: merge_config_def negative_backoff_def DEFAULT_RETRY_CONFIG_def)

lemma always_fails_step:
  assumes "a \<noteq> 2" and "a \<le> 2"
  shows "retry_loop (obs_runtime half_runtime) (obs_fn always_fails)
           (obs_opts ((DEFAULT_RETRY_CONFIG :: unit RetryConfig)
                        \<lparr> maxRetries := 2, backoffFactor := b \<rparr>)) a (tr, ())
       = retry_loop (obs_runtime half_runtime) (obs_fn always_fails)
           (obs_opts ((DEFAULT_RETRY_CONFIG :: unit RetryConfig)
                        \<lparr> maxRetries := 2, backoffFactor := b \<rparr>)) (a + 1)
           (tr @ [Called, Drew (1 / 2), Slept (min (1000 * b ^ nat a) 30000)], ())"
  using assms
  by (subst retry_loop_obs_unfold)
    (simp add: always_fails_def DEFAULT_RETRY_CONFIG_def drawn_def between_def slept_for_def
      backoff_delay_def half_runtime_sel)

lemma always_fails_last:
  "retry_loop (obs_runtime half_runtime) (obs_fn always_fails)
           (obs_opts ((DEFAULT_RETRY_CONFIG :: unit RetryConfig)
                        \<lparr> maxRetries := 2, backoffFactor := b \<rparr>)) 2 (tr, ())
       = Some (Inl (OtherError ''fail''), (tr @ [Called], ()))"
  by (subst retry_loop_obs_unfold) (simp add: always_fails_def)

text \<open>
  C6 as stated, for any backoff factor, fails: with the factor \<open>-2\<close> the second sleep is
  asked to last \<open>-2000\<close> ms. The source has no clamp at zero.
\<close>

theorem C6_negative_sleep_counterexample:
  "withRetry (obs_runtime half_runtime) (obs_fn always_fails)
     (obs_retry_config negative_backoff) ([], ())
   = Some (Inl (OtherError ''fail''),
           ([Called, Drew (1 / 2), Slept 1000, Called, Drew (1 / 2), Slept (- 2000), Called],
            ()))"
proof -
  have "withRetry (obs_runtime half_runtime) (obs_fn always_fails)
          (obs_retry_config negative_backoff) ([], ())
        = retry_loop (obs_runtime half_runtime) (obs_fn always_fails)
           (obs_opts ((DEFAULT_RETRY_CONFIG :: unit RetryConfig)
                        \<lparr> maxRetries := 2, backoffFactor := - 2 \<rparr>)) 0 ([], ())"
    by (simp only: withRetry_obs negative_backoff_merged)
  also have "\<dots> = retry_loop (obs_runtime half_runtime) (obs_fn always_fails)
           (obs_opts ((DEFAULT_RETRY_CONFIG :: unit RetryConfig)
                        \<lparr> maxRetries := 2, backoffFactor := - 2 \<rparr>)) 1
           ([Called, Drew (1 / 2), Slept 1000], ())"
    using always_fails_step [of 0 "- 2" "[]"] by simp
  also have "\<dots> = retry_loop (obs_runtime half_runtime) (obs_fn always_fails)
           (obs_opts ((DEFAULT_RETRY_CONFIG :: unit RetryConfig)
                        \<lparr> maxRetries := 2, backoffFactor := - 2 \<rparr>)) 2
           ([Called, Drew (1 / 2), Slept 1000, Called, Drew (1 / 2), Slept (- 2000)], ())"
    using always_fails_step [of 1 "- 2" "[Called, Drew (1 / 2), Slept 1000]"] by simp
  also have "\<dots> = Some (Inl (OtherError ''fail''),
           ([Called, Drew (1 / 2), Slept 1000, Called, Drew (1 / 2), Slept (- 2000), Called],
            ()))"
    using always_fails_last [of "- 2" "[Called, Drew (1 / 2), Slept 1000, Called, Drew (1 / 2), Slept (- 2000)]"]
    by simp
  finally show ?thesis .
qed

lemma two_retries_merged:
  "merge_config DEFAULT_RETRY_CONFIG two_retries
     = (DEFAULT_RETRY_CONFIG :: unit RetryConfig)\<lparr> maxRetries := 2, backoffFactor := 2 \<rparr>"
  by (simp add: merge_config_def two_retries_def DEFAULT_RETRY_CONFIG_def)

lemma two_retries_run:
  "withRetry (obs_runtime half_runtime) (obs_fn always_fails)
     (obs_retry_config two_retries) ([], ())
   = Some (Inl (OtherError ''fail''),
           ([Called, Drew (1 / 2), Slept 1000, Called, Drew (1 / 2), Slept 2000, Called], ()))"
proof -
  have "withRetry (obs_runtime half_runtime) (obs_fn always_fails)
          (obs_retry_config two_retries) ([], ())
        = retry_loop (obs_runtime half_runtime) (obs_fn always_fails)
           (obs_opts ((DEFAULT_RETRY_CONFIG :: unit RetryConfig)
                        \<lparr> maxRetries := 2, backoffFactor := 2 \<rparr>)) 0 ([], ())"
    by (simp only: withRetry_obs two_retries_merged)
  also have "\<dots> = retry_loop (obs_runtime half_runtime) (obs_fn always_fails)
           (obs_opts ((DEFAULT_RETRY_CONFIG :: unit RetryConfig)
                        \<lparr> maxRetries := 2, backoffFactor := 2 \<rparr>)) 1
           ([Called, Drew (1 / 2), Slept 1000], ())"
    using always_fails_step [of 0 2 "[]"] by simp
  also have "\<dots> = retry_loop (obs_runtime half_runtime) (obs_fn always_fails)
           (obs_opts ((DEFAULT_RETRY_CONFIG :: unit RetryConfig)
                        \<lparr> maxRetries := 2, backoffFactor := 2 \<rparr>)) 2
           ([Called, Drew (1 / 2), Slept 1000, Called, Drew (1 / 2), Slept 2000], ())"
    using always_fails_step [of 1 2 "[Called, Drew (1 / 2), Slept 1000]"] by simp
  also have "\<dots> = Some (Inl (OtherError ''fail''),
           ([Called, Drew (1 / 2), Slept 1000, Called, Drew (1 / 2), Slept 2000, Called], ()))"
    using always_fails_last [of 2 "[Called, Drew (1 / 2), Slept 1000, Called, Drew (1 / 2), Slept 2000]"]
    by simp
  finally show ?thesis .
qed

theorem C6_backoff_sleep_witness:
  "withRetry (obs_runtime half_runtime) (obs_fn always_fails)
     (obs_retry_config two_retries) ([], ())
   = Some (Inl (OtherError ''fail''),
           ([Called, Drew (1 / 2), Slept 1000, Called, Drew (1 / 2), Slept 2000, Called], ()))
   \<and> sleeps [Called, Drew (1 / 2), Slept 1000, Called, Drew (1 / 2), Slept 2000, Called] ! 1
       = min (1000 * 2 ^ 1) 30000 + min (1000 * 2 ^ 1) 30000 * 0.25 * (1 / 2 * 2 - 1)
   \<and> (0::real) \<le> 2000 \<and> (2000::real) \<le> 30000 * 1.25"
proof -
  let ?opts = "merge_config DEFAULT_RETRY_CONFIG two_retries :: unit RetryConfig"
  let ?T = "[Called, Drew (1 / 2), Slept 1000, Called, Drew (1 / 2), Slept 2000, Called]"
  have h: "0 \<le> initialDelay ?opts" "0 \<le> maxDelay ?opts" "0 \<le> backoffFactor ?opts"
    by (simp_all add: merge_config_def two_retries_def DEFAULT_RETRY_CONFIG_def)
  have r: "\<And>s. 0 \<le> fst (Math_random half_runtime s) \<and> fst (Math_random half_runtime s) < 1"
    by (simp add: half_runtime_sel)
  from C6_backoff_sleep [OF refl h r two_retries_run]
  have "\<forall>k < length (sleeps ?T).
            0 \<le> draws ?T ! k \<and> draws ?T ! k < 1
          \<and> sleeps ?T ! k
              = min (initialDelay ?opts * backoffFactor ?opts ^ k) (maxDelay ?opts)
                + min (initialDelay ?opts * backoffFactor ?opts ^ k) (maxDelay ?opts)
                  * 0.25 * (draws ?T ! k * 2 - 1)
          \<and> 0 \<le> sleeps ?T ! k \<and> sleeps ?T ! k \<le> maxDelay ?opts * 1.25"
    by (rule conjunct2)
  moreover have "1 < length (sleeps ?T)" by simp
  ultimately have "0 \<le> draws ?T ! 1 \<and> draws ?T ! 1 < 1
          \<and> sleeps ?T ! 1
              = min (initialDelay ?opts * backoffFactor ?opts ^ 1) (maxDelay ?opts)
                + min (initialDelay ?opts * backoffFactor ?opts ^ 1) (maxDelay ?opts)
                  * 0.25 * (draws ?T ! 1 * 2 - 1)
          \<and> 0 \<le> sleeps ?T ! 1 \<and> sleeps ?T ! 1 \<le> maxDelay ?opts * 1.25"
    by blast
  then show ?thesis
    using two_retries_run
    by (simp add: merge_config_def two_retries_def DEFAULT_RETRY_CONFIG_def)
qed

subsection \<open>The middleware chain\<close>

text \<open>
  C7. Two middlewares \<open>A\<close>, \<open>B\<close> that work, call \<^verbatim>\<open>next()\<close> and work on its outcome,
  registered in that order around a handler \<open>H\<close>: the chain runs the entry of \<open>A\<close>, the
  entry of \<open>B\<close>, \<open>H\<close> on the context both have prepared, the exit of \<open>B\<close> on what \<open>H\<close>
  gave and the exit of \<open>A\<close> on what \<open>B\<close> gave. With no middleware the chain is the handler
  itself, on the unchanged context, and gives what the handler gives.
\<close>

theorem C7_middleware_order:
  "executeMiddlewareChain [around enterA exitA, around enterB exitB] ctx H w =
     (let (c1, w1) = enterA ctx w;
          (c2, w2) = enterB c1 w1
      in case H \<lparr>index = 2, shared_context = c2, world = w2\<rparr> of
           None \<Rightarrow> None
         | Some (res, s) \<Rightarrow>
             (let (resB, c3, w3) = exitB res (shared_context s) (world s);
                  (resA, c4, w4) = exitA resB c3 w3
              in Some (resA, s\<lparr>shared_context := c4, world := w4\<rparr>)))
   \<and> executeMiddlewareChain [] ctx H w = H \<lparr>index = 0, shared_context = ctx, world = w\<rparr>"
  by (simp add: executeMiddlewareChain_def around_def Let_def numeral_2_eq_2
      split: prod.splits option.splits)

theorem C7_middleware_order_witness:
  "executeMiddlewareChain [logging_middleware ''A'', logging_middleware ''B'']
     createContext logging_handler []
   = Some (Inr createResponse,
           \<lparr>index = 2, shared_context = createContext,
             world = [''A-enter'', ''B-enter'', ''H'', ''B-exit'', ''A-exit'']\<rparr>)"
  using C7_middleware_order
    [of "\<lambda>c w. (c, w @ [''A-enter''])"
        "\<lambda>res c w. (res, c, case res of Inl e \<Rightarrow> w | Inr r \<Rightarrow> w @ [''A-exit''])"
        "\<lambda>c w. (c, w @ [''B-enter''])"
        "\<lambda>res c w. (res, c, case res of Inl e \<Rightarrow> w | Inr r \<Rightarrow> w @ [''B-exit''])"
        createContext logging_handler "[]"]
  by (simp add: logging_middleware_def logging_handler_def cong: sum.case_cong)

subsection \<open>The transport\<close>

lemma executeRequest_obs_trace:
  "fst (snd (executeRequest (obs_platform pf) (obs_config cfg) ctx tmo (tr, w)))
     = tr @ [Sent (axios_config ctx tmo)]"
  by (simp add: executeRequest_def NetSuiteError_new_def obs_platform_def obs_config_def log_opt_def Let_def
      split: prod.splits sum.splits option.splits)

text \<open>
  C9. \<^verbatim>\<open>executeRequest\<close> makes one network call, with the configuration
  \<^verbatim>\<open>axios_config\<close>; its \<^verbatim>\<open>data\<close> is the body when the body is truthy and the method is
  POST, PUT or PATCH, and \<^verbatim>\<open>undefined\<close> otherwise. \<^verbatim>\<open>undefined\<close>, \<^verbatim>\<open>null\<close>, the empty
  string, 0, \<^verbatim>\<open>false\<close> (and \<^verbatim>\<open>NaN\<close>) are not truthy, so none of them is attached,
  whatever the method.
\<close>

theorem C9_body_attached:
  "fst (snd (executeRequest (obs_platform pf) (obs_config cfg) ctx tmo (tr, w)))
     = tr @ [Sent (axios_config ctx tmo)]
   \<and> ax_data (axios_config ctx tmo)
       = (if truthy (body ctx) \<and> http_method ctx \<in> {POST, PUT, PATCH} then body ctx
          else JUndefined)
   \<and> \<not> truthy JUndefined \<and> \<not> truthy JNull \<and> \<not> truthy (JStr [])
   \<and> \<not> truthy (JNum 0) \<and> \<not> truthy (JBool False) \<and> \<not> truthy JNaN"
  by (simp add: executeRequest_obs_trace axios_config_def)

text \<open>
  A query object sent with POST is attached, the same object sent with GET is not, and
  the number 0 sent with POST is not.
\<close>

lemma body_attached_examples:
  "ax_data (axios_config \<lparr> url = ''u'', http_method = POST, headers = [],
                            body = JObj [(''q'', JStr ''SELECT 1'')], metadata = [] \<rparr> 30000)
     = JObj [(''q'', JStr ''SELECT 1'')]"
  "ax_data (axios_config \<lparr> url = ''u'', http_method = GET, headers = [],
                            body = JObj [(''q'', JStr ''SELECT 1'')], metadata = [] \<rparr> 30000)
     = JUndefined"
  "ax_data (axios_config \<lparr> url = ''u'', http_method = POST, headers = [],
                            body = JNum 0, metadata = [] \<rparr> 30000)
     = JUndefined"
  by (simp_all add: axios_config_def)

lemma obs_config_sel:
  "timeout (obs_config cfg) = timeout cfg" "c_maxRetries (obs_config cfg) = c_maxRetries cfg"
  "retryDelay (obs_config cfg) = retryDelay cfg"
  "defaultHeaders (obs_config cfg) = defaultHeaders cfg"
  by (simp_all add: obs_config_def)

lemma log_opt_obs:
  "log_opt (logger (obs_config cfg)) r (tr, w) = (tr, log_opt (logger cfg) r w)"
  by (cases "logger cfg") (simp_all add: log_opt_def obs_config_def)

lemma obs_platform_sel:
  "Math_random (obs_platform pf) (tr, w)
     = (fst (Math_random pf w), (tr @ [Drew (fst (Math_random pf w))], snd (Math_random pf w)))"
  "setTimeout (obs_platform pf) d (tr, w) = (tr @ [Slept d], setTimeout pf d w)"
  "sign (obs_platform pf) u m (tr, w)
     = (fst (sign pf u m w), (tr @ [Signed u m (fst (sign pf u m w))], snd (sign pf u m w)))"
  "axios_request (obs_platform pf) c (tr, w)
     = (fst (axios_request pf c w), (tr @ [Sent c], snd (axios_request pf c w)))"
  "performance_now (obs_platform pf) (tr, w)
     = (fst (performance_now pf w), (tr, snd (performance_now pf w)))"
  by (simp_all add: obs_platform_def split: prod.splits)

lemma executeRequest_obs:
  "executeRequest (obs_platform pf) (obs_config cfg) ctx tmo (tr, w)
     = (fst (executeRequest pf cfg ctx tmo w),
        (tr @ [Sent (axios_config ctx tmo)], snd (executeRequest pf cfg ctx tmo w)))"
  by (simp add: executeRequest_def obs_platform_sel log_opt_obs Let_def
      split: prod.splits sum.splits)

text \<open>What one attempt of a transport without middleware does to the world.\<close>

definition attempt_result ::
  "'w platform \<Rightarrow> 'w ResolvedConfig \<Rightarrow> string \<Rightarrow> RequestOptions \<Rightarrow> HttpMethod \<Rightarrow> int \<Rightarrow> 'w
     \<Rightarrow> (thrown + jsval NetSuiteResponse) \<times> 'w" where
  "attempt_result pf cfg u options m tmo w =
     (let (h, w1) = sign pf u m w;
          (res, w2) = executeRequest pf cfg (attempt_context cfg u m options h) tmo w1
      in (map_sum id to_response res, w2))"

lemma attempt_fn_obs:
  "attempt_fn (obs_platform pf) (obs_transport cfg) u options m tmo (tr, w)
     = Some (fst (attempt_result pf cfg u options m tmo w),
             (tr @ [Signed u m (fst (sign pf u m w)),
                    Sent (axios_config
                            (attempt_context cfg u m options (fst (sign pf u m w))) tmo)],
              snd (attempt_result pf cfg u options m tmo w)))"
proof -
  obtain h w1 where s: "sign pf u m w = (h, w1)" by (cases "sign pf u m w")
  obtain res w2 where e: "executeRequest pf cfg (attempt_context cfg u m options h) tmo w1
                             = (res, w2)"
    by (cases "executeRequest pf cfg (attempt_context cfg u m options h) tmo w1")
  have c: "defaultHeaders (obs_config cfg) = defaultHeaders cfg"
    by (simp add: obs_config_def)
  show ?thesis
    by (cases res)
      (simp_all add: attempt_fn_def obs_transport_def obs_platform_sel s e c
        executeMiddlewareChain_def finalHandler_def executeRequest_obs
        attempt_context_def [symmetric] attempt_result_def to_response_def)
qed

lemma request_unfold:
  "request pf t u options w =
     (let m = (case o_method options of None \<Rightarrow> GET | Some v \<Rightarrow> v);
          tmo = (case o_timeout options of None \<Rightarrow> timeout (config t) | Some v \<Rightarrow> v);
          n = (case o_maxRetries options of None \<Rightarrow> c_maxRetries (config t) | Some v \<Rightarrow> v)
      in retry_loop pf (attempt_fn pf t u options m tmo)
           (request_retry_opts (config t) u m n) 0 w)"
  by (simp add: request_def withRetry_def request_retry_opts_def Let_def)

lemma request_retry_opts_sel [simp]:
  "maxRetries (request_retry_opts cfg u m n) = n"
  "initialDelay (request_retry_opts cfg u m n) = retryDelay cfg"
  "maxDelay (request_retry_opts cfg u m n) = 30000"
  "backoffFactor (request_retry_opts cfg u m n) = 2"
  "shouldRetry (request_retry_opts cfg u m n) e k
     = (case e of NSError x \<Rightarrow> isRetryable x | OtherError x \<Rightarrow> True)"
  "onRetry (request_retry_opts cfg u m n)
     = Some (\<lambda>error attempt. log_opt (logger cfg) (LogWarn attempt n u m error))"
  by (simp_all add: request_retry_opts_def merge_config_def DEFAULT_RETRY_CONFIG_def)

lemma request_retry_opts_obs:
  "request_retry_opts (obs_config cfg) u m n = obs_opts (request_retry_opts cfg u m n)"
proof -
  have "log_opt (logger (obs_config cfg)) r = apsnd (log_opt (logger cfg) r)" for r
    by (rule ext) (auto simp add: log_opt_obs)
  then show ?thesis
    by (simp add: request_retry_opts_def merge_config_def DEFAULT_RETRY_CONFIG_def
        obs_opts_def obs_config_def)
qed

lemma request_loop_unfold:
  "retry_loop (obs_platform pf)
     (attempt_fn (obs_platform pf) (obs_transport cfg) u options m tmo)
     (obs_opts (request_retry_opts cfg u m n)) a (tr, w) =
   (if a \<le> n then
      (case attempt_result pf cfg u options m tmo w of
         (Inr v, w1) \<Rightarrow> Some (Inr v, (tr @ sent_events pf cfg u options m tmo w, w1))
       | (Inl e, w1) \<Rightarrow>
           if a = n \<or> \<not> (case e of NSError x \<Rightarrow> isRetryable x | OtherError x \<Rightarrow> True)
           then Some (Inl e, (tr @ sent_events pf cfg u options m tmo w, w1))
           else retry_loop (obs_platform pf)
                  (attempt_fn (obs_platform pf) (obs_transport cfg) u options m tmo)
                  (obs_opts (request_retry_opts cfg u m n)) (a + 1)
                  (tr @ sent_events pf cfg u options m tmo w
                      @ [Drew (drawn pf (request_retry_opts cfg u m n) e a w1),
                         Slept (slept_for (request_retry_opts cfg u m n) (nat a)
                                  (drawn pf (request_retry_opts cfg u m n) e a w1))],
                   between pf (request_retry_opts cfg u m n) e a w1))
    else Some (Inl (OtherError ''Retry loop exited unexpectedly''), (tr, w)))"
  apply (subst retry_loop.simps)
  apply (simp add: attempt_fn_obs sent_events_def Let_def split: prod.splits sum.splits)
  apply (auto simp add: obs_opts_def obs_platform_sel between_def drawn_def slept_for_def
      backoff_delay_def Let_def split: prod.splits)
  done

lemma wire_append [simp]: "wire (xs @ ys) = wire xs @ wire ys"
  by (induction xs rule: wire.induct) simp_all

lemma wire_sent_events [simp]:
  "wire (sent_events pf cfg u options m tmo w) = sent_events pf cfg u options m tmo w"
  by (simp add: sent_events_def)

lemma wire_map_Sent [simp]: "wire (map Sent cs) = map Sent cs"
  by (induction cs) simp_all

lemma sends_only_chain_next:
  assumes "sends_only H" and "\<forall>mw \<in> set mws. sends_through_next mw"
  shows "sends_only (chain_next d mws H)"
proof (induction d)
  case 0
  show ?case by (simp add: sends_only_def)
next
  case (Suc d)
  show ?case
    unfolding sends_only_def
  proof (intro allI impI)
    fix s r s'
    assume run: "chain_next (Suc d) mws H s = Some (r, s')"
    show "\<exists>cs. wire (fst (world s')) = wire (fst (world s)) @ map Sent cs"
    proof (cases "index s \<ge> length mws")
      case True
      with run have "H s = Some (r, s')" by simp
      with assms(1) show ?thesis by (auto simp add: sends_only_def)
    next
      case False
      then have "mws ! index s \<in> set mws" by simp
      with assms(2) Suc have so: "sends_only ((mws ! index s) (chain_next d mws H))"
        by (auto simp add: sends_through_next_def)
      from run False
      have "(mws ! index s) (chain_next d mws H) (s\<lparr>index := index s + 1\<rparr>) = Some (r, s')"
        by (simp add: Let_def)
      with so have "\<exists>cs. wire (fst (world s'))
                        = wire (fst (world (s\<lparr>index := index s + 1\<rparr>))) @ map Sent cs"
        unfolding sends_only_def by blast
      then show ?thesis by simp
    qed
  qed
qed

lemma sends_only_finalHandler:
  "sends_only (finalHandler (obs_platform pf) (obs_config cfg) tmo)"
  unfolding sends_only_def
proof (intro allI impI)
  fix s :: "(event list \<times> 'a) chain_state" and r s'
  assume run: "finalHandler (obs_platform pf) (obs_config cfg) tmo s = Some (r, s')"
  obtain tr w where w: "world s = (tr, w)" by (cases "world s")
  from run w have "fst (world s') = tr @ [Sent (axios_config (shared_context s) tmo)]"
    by (auto simp add: finalHandler_def executeRequest_obs split: prod.splits)
  with w have "wire (fst (world s'))
                 = wire (fst (world s)) @ map Sent [axios_config (shared_context s) tmo]"
    by simp
  then show "\<exists>cs. wire (fst (world s')) = wire (fst (world s)) @ map Sent cs" ..
qed

lemma spread_snoc: "spread a (b @ [(k, v)]) = AList.update k v (spread a b)"
  by (simp add: spread_def)

lemma spread_other: "k \<notin> fst ` set b \<Longrightarrow> map_of (spread a b) k = map_of a k"
proof (induction b rule: rev_induct)
  case Nil
  show ?case by (simp add: spread_def)
next
  case (snoc x xs)
  obtain k' v' where x: "x = (k', v')" by (cases x)
  with snoc show ?case
    by (auto simp add: spread_snoc update_conv')
qed

lemma spread_key:
  "k \<in> fst ` set b \<Longrightarrow> \<exists>v. (k, v) \<in> set b \<and> map_of (spread a b) k = Some v"
proof (induction b rule: rev_induct)
  case Nil
  then show ?case by simp
next
  case (snoc x xs)
  obtain k' v' where x: "x = (k', v')" by (cases x)
  show ?case
  proof (cases "k = k'")
    case True
    with x have "(k, v') \<in> set (xs @ [x]) \<and> map_of (spread a (xs @ [x])) k = Some v'"
      by (simp add: spread_snoc update_conv')
    then show ?thesis ..
  next
    case False
    with snoc(2) x have "k \<in> fst ` set xs" by auto
    from snoc(1) [OF this] obtain v where "(k, v) \<in> set xs" "map_of (spread a xs) k = Some v"
      by blast
    with False x have "(k, v) \<in> set (xs @ [x]) \<and> map_of (spread a (xs @ [x])) k = Some v"
      by (simp add: spread_snoc update_conv')
    then show ?thesis ..
  qed
qed

lemma signed_headers_carried:
  assumes "k \<in> fst ` set h" and "k \<notin> fst ` set percall"
  shows "\<exists>v. (k, v) \<in> set h \<and> map_of (spread (spread a h) percall) k = Some v"
  using spread_key [OF assms(1), of a] spread_other [OF assms(2), of "spread a h"]
  by simp

lemma attempt_fn_block:
  assumes "attempt_fn (obs_platform pf) t u options m tmo (tr, w) = Some (r, (tr', w'))"
    and "config t = obs_config cfg"
    and "\<forall>mw \<in> set (middlewares t). sends_through_next mw"
  shows "\<exists>b. wire tr' = wire tr @ attempt_block u m b
             \<and> fresh_attempt pf t cfg u m options tmo b"
proof -
  let ?h = "fst (sign pf u m w)"
  let ?ctx = "attempt_context cfg u m options ?h"
  let ?H = "finalHandler (obs_platform pf) (obs_config cfg) tmo"
  let ?tr0 = "tr @ [Signed u m ?h]"
  let ?w0 = "snd (sign pf u m w)"
  let ?s0 = "\<lparr>index = 0, shared_context = ?ctx, world = (?tr0, ?w0)\<rparr>"
  from assms(1,2) obtain res s where
    chain: "chain_next (Suc (length (middlewares t))) (middlewares t) ?H ?s0 = Some (res, s)"
    and tr': "tr' = fst (world s)"
    by (auto simp add: attempt_fn_def obs_platform_sel obs_config_sel executeMiddlewareChain_def
        attempt_context_def Let_def split: option.splits sum.splits prod.splits)
  have "\<exists>cs. wire (fst (world s)) = wire ?tr0 @ map Sent cs
            \<and> (middlewares t = [] \<longrightarrow> cs = [axios_config ?ctx tmo])"
  proof (cases "middlewares t = []")
    case True
    with chain have "?H ?s0 = Some (res, s)"
      by simp
    then have "fst (world s) = ?tr0 @ [Sent (axios_config ?ctx tmo)]"
      by (auto simp add: finalHandler_def executeRequest_obs split: prod.splits)
    then have "wire (fst (world s)) = wire ?tr0 @ map Sent [axios_config ?ctx tmo]"
      by simp
    then show ?thesis
      by blast
  next
    case False
    from sends_only_chain_next [OF sends_only_finalHandler assms(3)] chain
    obtain cs where "wire (fst (world s)) = wire (fst (world ?s0)) @ map Sent cs"
      unfolding sends_only_def by blast
    with False show ?thesis
      by auto
  qed
  then obtain cs where cs: "wire (fst (world s)) = wire ?tr0 @ map Sent cs"
    and one: "middlewares t = [] \<longrightarrow> cs = [axios_config ?ctx tmo]"
    by blast
  from cs tr' have "wire tr' = wire tr @ attempt_block u m (?h, cs)"
    by (simp add: attempt_block_def)
  moreover have "fresh_attempt pf t cfg u m options tmo (?h, cs)"
  proof -
    let ?percall = "case o_headers options of None \<Rightarrow> [] | Some x \<Rightarrow> x"
    let ?hs = "spread (spread (spread [(''Content-Type'', ''application/json'')]
                                (defaultHeaders cfg)) ?h) ?percall"
    let ?rec = "\<lparr> url = u, http_method = m, headers = ?hs, body = o_body options,
                  metadata = [] \<rparr>"
    have ctx: "?ctx = ?rec"
      by (simp add: attempt_context_def)
    from chain assms(2)
    have "executeMiddlewareChain (middlewares t) ?rec
            (finalHandler (obs_platform pf) (config t) tmo) (?tr0, ?w0) = Some (res, s)"
      by (simp add: executeMiddlewareChain_def ctx)
    moreover from cs have "wire (fst (world s)) = wire tr @ Signed u m ?h # map Sent cs"
      by simp
    ultimately have c1: "\<exists>tr0 w0 r s'.
            executeMiddlewareChain (middlewares t) ?rec
              (finalHandler (obs_platform pf) (config t) tmo)
              (tr0 @ [Signed u m ?h], w0) = Some (r, s')
            \<and> wire (fst (world s')) = wire tr0 @ Signed u m ?h # map Sent cs"
      by blast
    from one have c2: "middlewares t = [] \<longrightarrow> cs = [axios_config ?rec tmo]"
      by (simp only: ctx)
    have c3: "\<forall>k \<in> fst ` set ?h. k \<notin> fst ` set ?percall
                \<longrightarrow> (\<exists>v. (k, v) \<in> set ?h \<and> map_of ?hs k = Some v)"
      using signed_headers_carried by blast
    have c4: "\<forall>k \<in> fst ` set ?percall. \<exists>v. (k, v) \<in> set ?percall \<and> map_of ?hs k = Some v"
      using spread_key by blast
    show ?thesis
      unfolding fresh_attempt_def Let_def fst_conv snd_conv
      by (intro conjI c1 c2 c3 c4)
  qed
  ultimately show ?thesis
    by blast
qed

lemma retry_loop_platform_unfold:
  "retry_loop (obs_platform pf) fn (obs_opts opts) a (tr, w) =
     (if a \<le> maxRetries opts then
        (case fn (tr, w) of
           None \<Rightarrow> None
         | Some (Inr v, s1) \<Rightarrow> Some (Inr v, s1)
         | Some (Inl e, s1) \<Rightarrow>
             if a = maxRetries opts \<or> \<not> shouldRetry opts e a then Some (Inl e, s1)
             else retry_loop (obs_platform pf) fn (obs_opts opts) (a + 1)
                    (fst s1 @ [Drew (drawn pf opts e a (snd s1)),
                               Slept (slept_for opts (nat a) (drawn pf opts e a (snd s1)))],
                     between pf opts e a (snd s1)))
      else Some (Inl (OtherError ''Retry loop exited unexpectedly''), (tr, w)))"
  apply (subst retry_loop.simps)
  apply (simp add: Let_def split: option.splits sum.splits prod.splits)
  apply (auto simp add: obs_opts_def obs_platform_sel between_def drawn_def slept_for_def
      backoff_delay_def Let_def split: prod.splits option.splits)
  done

lemma request_loop_attempts:
  assumes "retry_loop (obs_platform pf) (attempt_fn (obs_platform pf) t u options m tmo)
             (obs_opts opts) a (tr, w) = Some (res, (tr', w'))"
    and "config t = obs_config cfg"
    and "\<forall>mw \<in> set (middlewares t). sends_through_next mw"
    and "a \<le> maxRetries opts"
  shows "\<exists>retried final.
           wire tr' = wire tr @ attempts u m retried final
           \<and> int (length retried) \<le> maxRetries opts - a
           \<and> (\<forall>b \<in> set (final # map fst retried). fresh_attempt pf t cfg u m options tmo b)"
  using assms(1,4)
proof (induction k \<equiv> "nat (maxRetries opts + 1 - a)" arbitrary: a tr w)
  case 0
  then show ?case by simp
next
  case (Suc k)
  note le = Suc(4)
  let ?fn = "attempt_fn (obs_platform pf) t u options m tmo"
  let ?fresh = "fresh_attempt pf t cfg u m options tmo"
  from Suc(3) le obtain r tr1 w1 where fn: "?fn (tr, w) = Some (r, (tr1, w1))"
    by (subst (asm) retry_loop_platform_unfold) (auto split: option.splits)
  from attempt_fn_block [OF fn assms(2,3)]
  obtain b where b: "wire tr1 = wire tr @ attempt_block u m b" and fresh: "?fresh b"
    by blast
  show ?case
  proof (cases "\<exists>e. r = Inl e \<and> a \<noteq> maxRetries opts \<and> shouldRetry opts e a")
    case False
    with Suc(3) fn le have "tr' = tr1"
      by (subst (asm) retry_loop_platform_unfold) (cases r; auto)
    with b have "wire tr' = wire tr @ attempts u m [] b"
      by simp
    with fresh le show ?thesis
      by (intro exI [of _ "[]"] exI [of _ b]) simp
  next
    case True
    then obtain e where Inl: "r = Inl e" and notlast: "a \<noteq> maxRetries opts"
      and sr: "shouldRetry opts e a" by blast
    let ?d = "drawn pf opts e a w1"
    let ?sl = "slept_for opts (nat a) ?d"
    let ?tr2 = "tr1 @ [Drew ?d, Slept ?sl]"
    from Suc(3) fn le Inl sr notlast
    have rec: "retry_loop (obs_platform pf) ?fn (obs_opts opts) (a + 1)
                 (?tr2, between pf opts e a w1) = Some (res, (tr', w'))"
      by (subst (asm) retry_loop_platform_unfold) auto
    have k: "k = nat (maxRetries opts + 1 - (a + 1))" using Suc(2) by linarith
    from le notlast have le': "a + 1 \<le> maxRetries opts" by simp
    from Suc(1) [OF k rec le']
    obtain retried final where w: "wire tr' = wire ?tr2 @ attempts u m retried final"
      and l: "int (length retried) \<le> maxRetries opts - (a + 1)"
      and g: "\<forall>b \<in> set (final # map fst retried). ?fresh b"
      by blast
    from w b have "wire tr' = wire tr @ attempts u m ((b, ?sl) # retried) final"
      by simp
    moreover from l have "int (length ((b, ?sl) # retried)) \<le> maxRetries opts - a"
      by simp
    moreover from g fresh
    have "\<forall>b \<in> set (final # map fst ((b, ?sl) # retried)). ?fresh b"
      by simp
    ultimately show ?thesis
      by blast
  qed
qed

lemma around_sends_through_next:
  assumes "\<And>c w. fst (snd (enter c w)) = fst w"
    and "\<And>res c w. fst (snd (snd (exit res c w))) = fst w"
  shows "sends_through_next (around enter exit)"
  unfolding sends_through_next_def sends_only_def
proof (intro allI impI)
  fix nxt :: "(event list \<times> 'a) handler" and s r s'
  assume nxt: "\<forall>s r s'. nxt s = Some (r, s')
                 \<longrightarrow> (\<exists>cs. wire (fst (world s')) = wire (fst (world s)) @ map Sent cs)"
    and run: "around enter exit nxt s = Some (r, s')"
  obtain c1 w1 where en: "enter (shared_context s) (world s) = (c1, w1)"
    by (cases "enter (shared_context s) (world s)")
  from run en obtain res s2 where
    n: "nxt (s\<lparr>shared_context := c1, world := w1\<rparr>) = Some (res, s2)"
    by (auto simp add: around_def split: option.splits)
  obtain res' c3 w3 where ex: "exit res (shared_context s2) (world s2) = (res', c3, w3)"
    by (cases "exit res (shared_context s2) (world s2)")
  from run en n ex have s': "s' = s2\<lparr>shared_context := c3, world := w3\<rparr>"
    by (simp add: around_def)
  from assms(1) [of "shared_context s" "world s"] en have w1: "fst w1 = fst (world s)" by simp
  from assms(2) [of res "shared_context s2" "world s2"] ex have w3: "fst w3 = fst (world s2)"
    by simp
  from nxt n obtain cs where
    "wire (fst (world s2)) = wire (fst (world (s\<lparr>shared_context := c1, world := w1\<rparr>))) @ map Sent cs"
    by blast
  with s' w1 w3 have "wire (fst (world s')) = wire (fst (world s)) @ map Sent cs" by simp
  then show "\<exists>cs. wire (fst (world s')) = wire (fst (world s)) @ map Sent cs" ..
qed

text \<open>
  C2 (as amended). A request that returns, on a transport whose middlewares reach the
  signer, the network and the retry engine's timer through \<^verbatim>\<open>next()\<close> only (they have no
  other way in the source). With \<^verbatim>\<open>maxRetries = n >= 0\<close> its log of sign calls, network
  calls and sleeps is, attempt by attempt: one call of the signer, made anew with the
  request's url and method, then the network calls of that attempt, and between two
  attempts the sleep of the retry engine. So every attempt, the first one and each retry,
  starts with a sign call of its own, before its network calls, and there are at most \<open>n\<close>
  retries. Every attempt is fresh (\<open>fresh_attempt\<close>): its network calls are those of the
  middleware chain, started right after its sign call on the context whose headers merge
  \<^verbatim>\<open>Content-Type\<close>, the default headers, the headers that this attempt's sign call
  returned and the per-call headers, in this order; without middleware that is exactly one network call, with these
  headers; under every name that the sign call returned and the per-call headers do not
  override, these headers hold a value from this attempt's sign call, never one of an
  earlier attempt; and under every name of the per-call headers they hold the caller's
  value, on every attempt. (With \<open>n < 0\<close> there is no attempt.)
\<close>

theorem C2_sign_per_attempt:
  assumes "request (obs_platform pf) t u options ([], w) = Some (res, (tr, w'))"
    and "config t = obs_config cfg"
    and "\<forall>mw \<in> set (middlewares t). sends_through_next mw"
    and "m = (case o_method options of None \<Rightarrow> GET | Some v \<Rightarrow> v)"
    and "tmo = (case o_timeout options of None \<Rightarrow> timeout cfg | Some v \<Rightarrow> v)"
    and "n = (case o_maxRetries options of None \<Rightarrow> c_maxRetries cfg | Some v \<Rightarrow> v)"
  shows "if 0 \<le> n then
           \<exists>retried final.
             wire tr = attempts u m retried final
             \<and> int (length retried) \<le> n
             \<and> (\<forall>b \<in> set (final # map fst retried). fresh_attempt pf t cfg u m options tmo b)
         else wire tr = []"
proof -
  from assms(1,2,4,5,6)
  have loop: "retry_loop (obs_platform pf) (attempt_fn (obs_platform pf) t u options m tmo)
                (obs_opts (request_retry_opts cfg u m n)) 0 ([], w) = Some (res, (tr, w'))"
    by (simp add: request_unfold obs_config_sel request_retry_opts_obs Let_def
        cong: option.case_cong)
  show ?thesis
  proof (cases "0 \<le> n")
    case False
    with loop have "tr = []"
      by (subst (asm) retry_loop_platform_unfold) simp
    with False show ?thesis by simp
  next
    case True
    then have "0 \<le> maxRetries (request_retry_opts cfg u m n)" by simp
    from request_loop_attempts [OF loop assms(2,3) this]
    obtain retried final where "wire tr = attempts u m retried final"
      and "int (length retried) \<le> n"
      and "\<forall>b \<in> set (final # map fst retried). fresh_attempt pf t cfg u m options tmo b"
      by auto
    with True show ?thesis
      by (simp only: if_True) blast
  qed
qed

text \<open>
  A signer whose nonce is a counter, and a server that answers the first request with
  status 500 and the following ones with 200.
\<close>

definition flaky_platform :: "nat platform" where
  "flaky_platform =
     \<lparr> Math_random = (\<lambda>w. (1 / 2, w)),
       setTimeout = (\<lambda>d w. w),
       sign = (\<lambda>u m k. ([(''Authorization'', ''OAuth oauth_nonce='' @ show_nat k)], Suc k)),
       axios_request = (\<lambda>c w.
          (Inr \<lparr> ar_status = (if w = 1 then 500 else 200), ar_data = JObj [],
                 ar_headers = [] \<rparr>, w)),
       performance_now = (\<lambda>w. (0, w)) \<rparr>"

text \<open>
  A server that answers every request with status 401 and the error code
  \<^verbatim>\<open>TIMEOUT\<close> in the body.
\<close>

definition unauthorized_platform :: "unit platform" where
  "unauthorized_platform =
     \<lparr> Math_random = (\<lambda>w. (1 / 2, w)),
       setTimeout = (\<lambda>d w. w),
       sign = (\<lambda>u m w. ([(''Authorization'', ''OAuth'')], w)),
       axios_request = (\<lambda>c w.
          (Inr \<lparr> ar_status = 401, ar_data = JObj [(''o:errorCode'', JStr ''TIMEOUT'')],
                 ar_headers = [] \<rparr>, w)),
       performance_now = (\<lambda>w. (0, w)) \<rparr>"

lemma default_config_sel [simp]:
  "timeout default_config = 30000" "c_maxRetries default_config = 3"
  "retryDelay default_config = 1000" "defaultHeaders default_config = []"
  "logger default_config = None"
  by (simp_all add: default_config_def HttpTransport_new_def)

lemma no_options_sel [simp]:
  "o_method no_options = None" "o_headers no_options = None" "o_body no_options = JUndefined"
  "o_timeout no_options = None" "o_maxRetries no_options = None"
  by (simp_all add: no_options_def)

lemma show_int_401: "show_int 401 = ''401''"
  by (simp add: show_int_def show_nat.simps)

lemma unauthorized_attempt:
  "attempt_result unauthorized_platform default_config ''u'' options GET 30000 ()
     = (Inl (NSError \<lparr> message = ''HTTP 401'', status = 401, code = JStr ''TIMEOUT'',
                        details = JObj [(''o:errorCode'', JStr ''TIMEOUT'')],
                        requestUrl = Some ''u'', requestMethod = Some GET \<rparr>), ())"
  by (simp add: attempt_result_def unauthorized_platform_def executeRequest_def NetSuiteError_new_def
      attempt_context_def log_opt_def coalesce_def show_int_401 Let_def)

lemma one_retry_sel [simp]:
  "o_method one_retry = None" "o_headers one_retry = None" "o_body one_retry = JUndefined"
  "o_timeout one_retry = None" "o_maxRetries one_retry = Some 1"
  by (simp_all add: one_retry_def)

lemma unauthorized_events1:
  "sent_events unauthorized_platform default_config ''u'' one_retry GET 30000 ()
     = [Signed ''u'' GET [(''Authorization'', ''OAuth'')],
        Sent \<lparr> ax_url = ''u'', ax_method = GET,
               ax_headers = [(''Content-Type'', ''application/json''),
                             (''Authorization'', ''OAuth'')],
               ax_data = JUndefined, ax_timeout = 30000 \<rparr>]"
  by (simp add: sent_events_def unauthorized_platform_def attempt_context_def axios_config_def
      spread_def)

lemma unauthorized_between:
  "between unauthorized_platform (request_retry_opts default_config ''u'' GET 1) e a () = ()"
  "drawn unauthorized_platform (request_retry_opts default_config ''u'' GET 1) e a () = 1 / 2"
  by (simp_all add: between_def drawn_def unauthorized_platform_def)

lemma unauthorized_retryable:
  "isRetryable \<lparr> message = ''HTTP 401'', status = 401, code = JStr ''TIMEOUT'',
                 details = JObj [(''o:errorCode'', JStr ''TIMEOUT'')],
                 requestUrl = Some ''u'', requestMethod = Some GET \<rparr>"
  by (simp add: isRetryable_def)

lemma unauthorized_request_start:
  "request (obs_platform unauthorized_platform) (obs_transport default_config) ''u''
     one_retry ([], ())
   = retry_loop (obs_platform unauthorized_platform)
       (attempt_fn (obs_platform unauthorized_platform) (obs_transport default_config) ''u''
          one_retry GET 30000)
       (obs_opts (request_retry_opts default_config ''u'' GET 1)) 0 ([], ())"
  by (simp add: request_unfold obs_transport_def request_retry_opts_obs obs_config_sel)

lemma auth_error_not_retryable:
  assumes "isAuthError e" and "code e \<noteq> JStr ''TIMEOUT''" and "code e \<noteq> JStr ''NETWORK_ERROR''"
  shows "\<not> isRetryable e"
  using assms by (auto simp add: isAuthError_def isRetryable_def)

text \<open>
  C3 fails on the code at a response with status 401 whose body carries the error code
  \<^verbatim>\<open>TIMEOUT\<close>: \<^verbatim>\<open>executeRequest\<close> copies the code of the body into the error,
  \<^verbatim>\<open>isRetryable\<close> accepts the error for its code, and with one retry allowed the request is
  signed and sent twice before the error reaches the caller.
\<close>

theorem C3_auth_error_retried:
  "request (obs_platform unauthorized_platform) (obs_transport default_config) ''u''
     one_retry ([], ())
   = Some (Inl (NSError \<lparr> message = ''HTTP 401'', status = 401, code = JStr ''TIMEOUT'',
                           details = JObj [(''o:errorCode'', JStr ''TIMEOUT'')],
                           requestUrl = Some ''u'', requestMethod = Some GET \<rparr>),
           ([Signed ''u'' GET [(''Authorization'', ''OAuth'')],
             Sent \<lparr> ax_url = ''u'', ax_method = GET,
                    ax_headers = [(''Content-Type'', ''application/json''),
                                  (''Authorization'', ''OAuth'')],
                    ax_data = JUndefined, ax_timeout = 30000 \<rparr>,
             Drew (1 / 2), Slept 1000,
             Signed ''u'' GET [(''Authorization'', ''OAuth'')],
             Sent \<lparr> ax_url = ''u'', ax_method = GET,
                    ax_headers = [(''Content-Type'', ''application/json''),
                                  (''Authorization'', ''OAuth'')],
                    ax_data = JUndefined, ax_timeout = 30000 \<rparr>], ()))"
  apply (simp only: unauthorized_request_start)
  apply (subst request_loop_unfold)
  apply (simp add: unauthorized_attempt unauthorized_events1 unauthorized_between
      unauthorized_retryable slept_for_def backoff_delay_def)
  apply (subst request_loop_unfold)
  apply (simp add: unauthorized_attempt unauthorized_events1)
  done

lemma show_nat_0: "show_nat 0 = ''0''" by (simp add: show_nat.simps)
lemma show_nat_1: "show_nat (Suc 0) = ''1''" by (simp add: show_nat.simps)
lemma show_int_500: "show_int 500 = ''500''" by (simp add: show_int_def show_nat.simps)

lemma flaky_between:
  "between flaky_platform (request_retry_opts default_config ''u'' GET 3) e a w = w"
  "drawn flaky_platform (request_retry_opts default_config ''u'' GET 3) e a w = 1 / 2"
  by (simp_all add: between_def drawn_def flaky_platform_def log_opt_def)

lemma custom_header_sends_through_next:
  "sends_through_next (custom_header_middleware :: (event list \<times> 'w) Middleware)"
  unfolding custom_header_middleware_def
  by (rule around_sends_through_next) simp_all

lemma flaky_executeRequest:
  "executeRequest flaky_platform default_config ctx tmo k
     = (if k = Suc 0
        then Inl (NSError \<lparr> message = ''HTTP 500'', status = 500, code = JStr ''HTTP_500'',
                             details = JObj [], requestUrl = Some (url ctx),
                             requestMethod = Some (http_method ctx) \<rparr>)
        else Inr \<lparr> r_status = 200, r_headers = [], r_body = JObj [], r_duration = 0 \<rparr>, k)"
  by (simp add: flaky_platform_def executeRequest_def NetSuiteError_new_def log_opt_def coalesce_def show_int_500
      extractHeaders_def Let_def)

lemma custom_attempt:
  "attempt_fn (obs_platform flaky_platform) custom_transport ''u'' no_options GET 30000 (tr, k)
     = Some (if k = 0
             then Inl (NSError \<lparr> message = ''HTTP 500'', status = 500,
                                  code = JStr ''HTTP_500'', details = JObj [],
                                  requestUrl = Some ''u'', requestMethod = Some GET \<rparr>)
             else Inr \<lparr> data = JObj [], res_status = 200, res_headers = [],
                        res_duration = 0 \<rparr>,
             (tr @ [Signed ''u'' GET [(''Authorization'', ''OAuth oauth_nonce='' @ show_nat k)],
                    Sent \<lparr> ax_url = ''u'', ax_method = GET,
                           ax_headers = [(''Content-Type'', ''application/json''),
                                         (''Authorization'', ''OAuth oauth_nonce='' @ show_nat k),
                                         (''X-Custom'', ''value'')],
                           ax_data = JUndefined, ax_timeout = 30000 \<rparr>], Suc k))"
proof -
  have s: "sign flaky_platform ''u'' GET k
             = ([(''Authorization'', ''OAuth oauth_nonce='' @ show_nat k)], Suc k)"
    by (simp add: flaky_platform_def)
  show ?thesis
    by (simp add: attempt_fn_def custom_transport_def use_def obs_transport_def
        custom_header_middleware_def around_def executeMiddlewareChain_def finalHandler_def
        executeRequest_obs obs_platform_sel obs_config_sel s flaky_executeRequest
        axios_config_def spread_def Let_def)
qed

lemma custom_transport_sel:
  "config custom_transport = obs_config default_config"
  "middlewares custom_transport = [custom_header_middleware]"
  by (simp_all add: custom_transport_def use_def obs_transport_def)

lemma custom_run:
  "request (obs_platform flaky_platform) custom_transport ''u'' no_options ([], 0)
   = Some (Inr \<lparr> data = JObj [], res_status = 200, res_headers = [], res_duration = 0 \<rparr>,
           ([Signed ''u'' GET [(''Authorization'', ''OAuth oauth_nonce=0'')],
             Sent \<lparr> ax_url = ''u'', ax_method = GET,
                    ax_headers = [(''Content-Type'', ''application/json''),
                                  (''Authorization'', ''OAuth oauth_nonce=0''),
                                  (''X-Custom'', ''value'')],
                    ax_data = JUndefined, ax_timeout = 30000 \<rparr>,
             Drew (1 / 2), Slept 1000,
             Signed ''u'' GET [(''Authorization'', ''OAuth oauth_nonce=1'')],
             Sent \<lparr> ax_url = ''u'', ax_method = GET,
                    ax_headers = [(''Content-Type'', ''application/json''),
                                  (''Authorization'', ''OAuth oauth_nonce=1''),
                                  (''X-Custom'', ''value'')],
                    ax_data = JUndefined, ax_timeout = 30000 \<rparr>], 2))"
proof -
  have "request (obs_platform flaky_platform) custom_transport ''u'' no_options ([], 0)
        = retry_loop (obs_platform flaky_platform)
            (attempt_fn (obs_platform flaky_platform) custom_transport ''u'' no_options GET 30000)
            (obs_opts (request_retry_opts default_config ''u'' GET 3)) 0 ([], 0)"
    by (simp add: request_unfold custom_transport_sel request_retry_opts_obs obs_config_sel)
  also have "\<dots> = Some (Inr \<lparr> data = JObj [], res_status = 200, res_headers = [], res_duration = 0 \<rparr>,
           ([Signed ''u'' GET [(''Authorization'', ''OAuth oauth_nonce=0'')],
             Sent \<lparr> ax_url = ''u'', ax_method = GET,
                    ax_headers = [(''Content-Type'', ''application/json''),
                                  (''Authorization'', ''OAuth oauth_nonce=0''),
                                  (''X-Custom'', ''value'')],
                    ax_data = JUndefined, ax_timeout = 30000 \<rparr>,
             Drew (1 / 2), Slept 1000,
             Signed ''u'' GET [(''Authorization'', ''OAuth oauth_nonce=1'')],
             Sent \<lparr> ax_url = ''u'', ax_method = GET,
                    ax_headers = [(''Content-Type'', ''application/json''),
                                  (''Authorization'', ''OAuth oauth_nonce=1''),
                                  (''X-Custom'', ''value'')],
                    ax_data = JUndefined, ax_timeout = 30000 \<rparr>], 2))"
    apply (subst retry_loop_platform_unfold)
    apply (simp add: custom_attempt flaky_between isRetryable_def slept_for_def
        backoff_delay_def show_nat_0)
    apply (subst retry_loop_platform_unfold)
    apply (simp add: custom_attempt show_nat_1)
    done
  finally show ?thesis .
qed

lemma flaky_sign:
  "sign flaky_platform u m k = ([(''Authorization'', ''OAuth oauth_nonce='' @ show_nat k)], Suc k)"
  by (simp add: flaky_platform_def)

lemma flaky_attempt:
  "attempt_result flaky_platform default_config ''u'' options GET 30000 k
     = (if k = 0
        then Inl (NSError \<lparr> message = ''HTTP 500'', status = 500, code = JStr ''HTTP_500'',
                             details = JObj [], requestUrl = Some ''u'',
                             requestMethod = Some GET \<rparr>)
        else Inr \<lparr> data = JObj [], res_status = 200, res_headers = [], res_duration = 0 \<rparr>,
        Suc k)"
  by (simp add: attempt_result_def flaky_sign flaky_executeRequest attempt_context_def
      to_response_def)

lemma own_authorization_sel [simp]:
  "o_method own_authorization = None"
  "o_headers own_authorization = Some [(''Authorization'', ''Bearer mine'')]"
  "o_body own_authorization = JUndefined"
  "o_timeout own_authorization = None" "o_maxRetries own_authorization = None"
  by (simp_all add: own_authorization_def)

lemma own_authorization_events:
  "sent_events flaky_platform default_config ''u'' own_authorization GET 30000 k
     = [Signed ''u'' GET [(''Authorization'', ''OAuth oauth_nonce='' @ show_nat k)],
        Sent \<lparr> ax_url = ''u'', ax_method = GET,
               ax_headers = [(''Content-Type'', ''application/json''),
                             (''Authorization'', ''Bearer mine'')],
               ax_data = JUndefined, ax_timeout = 30000 \<rparr>]"
  by (simp add: sent_events_def flaky_sign attempt_context_def axios_config_def spread_def)

lemma plain_events:
  "sent_events flaky_platform default_config ''u'' no_options GET 30000 k
     = [Signed ''u'' GET [(''Authorization'', ''OAuth oauth_nonce='' @ show_nat k)],
        Sent \<lparr> ax_url = ''u'', ax_method = GET,
               ax_headers = [(''Content-Type'', ''application/json''),
                             (''Authorization'', ''OAuth oauth_nonce='' @ show_nat k)],
               ax_data = JUndefined, ax_timeout = 30000 \<rparr>]"
  by (simp add: sent_events_def flaky_sign attempt_context_def axios_config_def spread_def)

lemma flaky_request_start:
  assumes "o_method options = None" and "o_timeout options = None"
    and "o_maxRetries options = None"
  shows "request (obs_platform flaky_platform) (obs_transport default_config) ''u''
           options ([], 0)
         = retry_loop (obs_platform flaky_platform)
             (attempt_fn (obs_platform flaky_platform) (obs_transport default_config) ''u''
                options GET 30000)
             (obs_opts (request_retry_opts default_config ''u'' GET 3)) 0 ([], 0)"
  using assms
  by (simp add: request_unfold obs_transport_def request_retry_opts_obs obs_config_sel)

lemma own_authorization_run:
  "request (obs_platform flaky_platform) (obs_transport default_config) ''u''
     own_authorization ([], 0)
   = Some (Inr \<lparr> data = JObj [], res_status = 200, res_headers = [], res_duration = 0 \<rparr>,
           ([Signed ''u'' GET [(''Authorization'', ''OAuth oauth_nonce=0'')],
             Sent \<lparr> ax_url = ''u'', ax_method = GET,
                    ax_headers = [(''Content-Type'', ''application/json''),
                                  (''Authorization'', ''Bearer mine'')],
                    ax_data = JUndefined, ax_timeout = 30000 \<rparr>,
             Drew (1 / 2), Slept 1000,
             Signed ''u'' GET [(''Authorization'', ''OAuth oauth_nonce=1'')],
             Sent \<lparr> ax_url = ''u'', ax_method = GET,
                    ax_headers = [(''Content-Type'', ''application/json''),
                                  (''Authorization'', ''Bearer mine'')],
                    ax_data = JUndefined, ax_timeout = 30000 \<rparr>], 2))"
  apply (simp only: flaky_request_start own_authorization_sel)
  apply (subst request_loop_unfold)
  apply (simp add: flaky_attempt own_authorization_events flaky_between isRetryable_def
      slept_for_def backoff_delay_def show_nat_0)
  apply (subst request_loop_unfold)
  apply (simp add: flaky_attempt own_authorization_events show_nat_1)
  done

lemma plain_run:
  "request (obs_platform flaky_platform) (obs_transport default_config) ''u''
     no_options ([], 0)
   = Some (Inr \<lparr> data = JObj [], res_status = 200, res_headers = [], res_duration = 0 \<rparr>,
           ([Signed ''u'' GET [(''Authorization'', ''OAuth oauth_nonce=0'')],
             Sent \<lparr> ax_url = ''u'', ax_method = GET,
                    ax_headers = [(''Content-Type'', ''application/json''),
                                  (''Authorization'', ''OAuth oauth_nonce=0'')],
                    ax_data = JUndefined, ax_timeout = 30000 \<rparr>,
             Drew (1 / 2), Slept 1000,
             Signed ''u'' GET [(''Authorization'', ''OAuth oauth_nonce=1'')],
             Sent \<lparr> ax_url = ''u'', ax_method = GET,
                    ax_headers = [(''Content-Type'', ''application/json''),
                                  (''Authorization'', ''OAuth oauth_nonce=1'')],
                    ax_data = JUndefined, ax_timeout = 30000 \<rparr>], 2))"
  apply (simp only: flaky_request_start no_options_sel)
  apply (subst request_loop_unfold)
  apply (simp add: flaky_attempt plain_events flaky_between isRetryable_def
      slept_for_def backoff_delay_def show_nat_0)
  apply (subst request_loop_unfold)
  apply (simp add: flaky_attempt plain_events show_nat_1)
  done

text \<open>
  C2 as stated fails for a call that passes its own \<^verbatim>\<open>Authorization\<close> header: the first
  attempt is answered with status 500 and retried, the signer is called for each of the
  two attempts and returns a fresh header each time, and both network calls carry the
  caller's header instead of the one the signer returned.
\<close>

theorem C2_per_call_authorization_counterexample:
  "request (obs_platform flaky_platform) (obs_transport default_config) ''u''
     own_authorization ([], 0)
   = Some (Inr \<lparr> data = JObj [], res_status = 200, res_headers = [], res_duration = 0 \<rparr>,
           ([Signed ''u'' GET [(''Authorization'', ''OAuth oauth_nonce=0'')],
             Sent \<lparr> ax_url = ''u'', ax_method = GET,
                    ax_headers = [(''Content-Type'', ''application/json''),
                                  (''Authorization'', ''Bearer mine'')],
                    ax_data = JUndefined, ax_timeout = 30000 \<rparr>,
             Drew (1 / 2), Slept 1000,
             Signed ''u'' GET [(''Authorization'', ''OAuth oauth_nonce=1'')],
             Sent \<lparr> ax_url = ''u'', ax_method = GET,
                    ax_headers = [(''Content-Type'', ''application/json''),
                                  (''Authorization'', ''Bearer mine'')],
                    ax_data = JUndefined, ax_timeout = 30000 \<rparr>], 2))"
  by (rule own_authorization_run)

theorem C2_sign_per_attempt_witness:
  "sends_through_next (custom_header_middleware :: (event list \<times> nat) Middleware)
   \<and> (\<exists>retried final.
         [Signed ''u'' GET [(''Authorization'', ''OAuth oauth_nonce=0'')],
          Sent \<lparr> ax_url = ''u'', ax_method = GET,
                 ax_headers = [(''Content-Type'', ''application/json''),
                               (''Authorization'', ''OAuth oauth_nonce=0''),
                               (''X-Custom'', ''value'')],
                 ax_data = JUndefined, ax_timeout = 30000 \<rparr>,
          Slept 1000,
          Signed ''u'' GET [(''Authorization'', ''OAuth oauth_nonce=1'')],
          Sent \<lparr> ax_url = ''u'', ax_method = GET,
                 ax_headers = [(''Content-Type'', ''application/json''),
                               (''Authorization'', ''OAuth oauth_nonce=1''),
                               (''X-Custom'', ''value'')],
                 ax_data = JUndefined, ax_timeout = 30000 \<rparr>]
         = attempts ''u'' GET retried final
         \<and> int (length retried) \<le> 3
         \<and> list_all (fresh_attempt flaky_platform custom_transport default_config
                       ''u'' GET no_options 30000)
             (final # map fst retried))
   \<and> (\<exists>retried final.
         [Signed ''u'' GET [(''Authorization'', ''OAuth oauth_nonce=0'')],
          Sent \<lparr> ax_url = ''u'', ax_method = GET,
                 ax_headers = [(''Content-Type'', ''application/json''),
                               (''Authorization'', ''OAuth oauth_nonce=0'')],
                 ax_data = JUndefined, ax_timeout = 30000 \<rparr>,
          Slept 1000,
          Signed ''u'' GET [(''Authorization'', ''OAuth oauth_nonce=1'')],
          Sent \<lparr> ax_url = ''u'', ax_method = GET,
                 ax_headers = [(''Content-Type'', ''application/json''),
                               (''Authorization'', ''OAuth oauth_nonce=1'')],
                 ax_data = JUndefined, ax_timeout = 30000 \<rparr>]
         = attempts ''u'' GET retried final
         \<and> int (length retried) \<le> 3
         \<and> list_all (fresh_attempt flaky_platform (obs_transport default_config) default_config
                       ''u'' GET no_options 30000)
             (final # map fst retried))"
proof -
  have mw: "\<forall>mw \<in> set (middlewares custom_transport). sends_through_next mw"
    by (simp add: custom_transport_sel custom_header_sends_through_next)
  have plain: "config (obs_transport default_config) = obs_config default_config"
    "middlewares (obs_transport default_config) = []"
    by (simp_all add: obs_transport_def)
  have none: "\<forall>mw \<in> set (middlewares (obs_transport default_config)). sends_through_next mw"
    by (simp add: plain)
  note with_middleware =
    C2_sign_per_attempt [OF custom_run custom_transport_sel(1) mw refl refl refl]
  note without =
    C2_sign_per_attempt [OF plain_run plain(1) none refl refl refl]
  from with_middleware have 1: "\<exists>retried final.
         [Signed ''u'' GET [(''Authorization'', ''OAuth oauth_nonce=0'')],
          Sent \<lparr> ax_url = ''u'', ax_method = GET,
                 ax_headers = [(''Content-Type'', ''application/json''),
                               (''Authorization'', ''OAuth oauth_nonce=0''),
                               (''X-Custom'', ''value'')],
                 ax_data = JUndefined, ax_timeout = 30000 \<rparr>,
          Slept 1000,
          Signed ''u'' GET [(''Authorization'', ''OAuth oauth_nonce=1'')],
          Sent \<lparr> ax_url = ''u'', ax_method = GET,
                 ax_headers = [(''Content-Type'', ''application/json''),
                               (''Authorization'', ''OAuth oauth_nonce=1''),
                               (''X-Custom'', ''value'')],
                 ax_data = JUndefined, ax_timeout = 30000 \<rparr>]
         = attempts ''u'' GET retried final
         \<and> int (length retried) \<le> 3
         \<and> list_all (fresh_attempt flaky_platform custom_transport default_config
                       ''u'' GET no_options 30000)
             (final # map fst retried)"
    by (simp add: list_all_iff)
  from without have 2: "\<exists>retried final.
         [Signed ''u'' GET [(''Authorization'', ''OAuth oauth_nonce=0'')],
          Sent \<lparr> ax_url = ''u'', ax_method = GET,
                 ax_headers = [(''Content-Type'', ''application/json''),
                               (''Authorization'', ''OAuth oauth_nonce=0'')],
                 ax_data = JUndefined, ax_timeout = 30000 \<rparr>,
          Slept 1000,
          Signed ''u'' GET [(''Authorization'', ''OAuth oauth_nonce=1'')],
          Sent \<lparr> ax_url = ''u'', ax_method = GET,
                 ax_headers = [(''Content-Type'', ''application/json''),
                               (''Authorization'', ''OAuth oauth_nonce=1'')],
                 ax_data = JUndefined, ax_timeout = 30000 \<rparr>]
         = attempts ''u'' GET retried final
         \<and> int (length retried) \<le> 3
         \<and> list_all (fresh_attempt flaky_platform (obs_transport default_config) default_config
                       ''u'' GET no_options 30000)
             (final # map fst retried)"
    by (simp add: list_all_iff)
  from custom_header_sends_through_next 1 2 show ?thesis
    by (intro conjI)
qed

end
